theory Spec2Isabelle
  imports Main "HOL-Library.AList"
begin

section \<open>Values, documents and the effect trace\<close>

text \<open>
  The three shared documents of the bot are \<^verbatim>\<open>playlist.json\<close>, \<^verbatim>\<open>now_playing.txt\<close> and
  \<^verbatim>\<open>control.json\<close>. Their JSON content is modelled with scalar values; a Python
  \<^verbatim>\<open>dict\<close> is an association list in insertion order, read with \<open>map_of\<close>. Python's
  \<^verbatim>\<open>None\<close> and JSON's \<^verbatim>\<open>null\<close> are both \<open>JNull\<close>. Floats and nested containers as
  field values are outside the model.
\<close>

datatype jval = JNull | JBool bool | JInt int | JStr string

type_synonym pydict = "(string \<times> jval) list"

type_synonym entry = pydict

text \<open>\<^verbatim>\<open>d.get(k)\<close> and \<^verbatim>\<open>d.get(k, default)\<close>.\<close>

definition pyget :: "pydict \<Rightarrow> string \<Rightarrow> jval" where
  "pyget d k = (case map_of d k of None \<Rightarrow> JNull | Some v \<Rightarrow> v)"

definition pyget_default :: "pydict \<Rightarrow> string \<Rightarrow> jval \<Rightarrow> jval" where
  "pyget_default d k dflt = (case map_of d k of None \<Rightarrow> dflt | Some v \<Rightarrow> v)"

text \<open>Truthiness (\<^verbatim>\<open>if x\<close>, \<^verbatim>\<open>not x\<close>) and \<^verbatim>\<open>==\<close> on scalars; in Python
  \<^verbatim>\<open>True == 1\<close> and \<^verbatim>\<open>False == 0\<close>.\<close>

fun py_truthy :: "jval \<Rightarrow> bool" where
  "py_truthy JNull = False"
| "py_truthy (JBool b) = b"
| "py_truthy (JInt n) = (n \<noteq> 0)"
| "py_truthy (JStr s) = (s \<noteq> [])"

fun py_eq :: "jval \<Rightarrow> jval \<Rightarrow> bool" where
  "py_eq (JBool b) (JInt n) = ((if b then 1 else 0) = n)"
| "py_eq (JInt n) (JBool b) = (n = (if b then 1 else 0))"
| "py_eq a b = (a = b)"

datatype exn =
    JSONDecodeError | UnicodeDecodeError | RecursionError | ValueError
  | FileNotFoundError | KeyError string | AttributeError | TypeError | OSError

text \<open>A document on disk either parses or does not; an absent file is \<open>None\<close> in the
  world below. \<open>Malformed x\<close> is a file on which \<^verbatim>\<open>json.load\<close> raises \<open>x\<close>:
  \<^verbatim>\<open>JSONDecodeError\<close> for a text that is not JSON (also the empty file),
  \<^verbatim>\<open>UnicodeDecodeError\<close> for bytes that are not UTF-8, \<^verbatim>\<open>RecursionError\<close> for a nesting that
  is too deep, \<^verbatim>\<open>ValueError\<close> for an integer literal that is too long.\<close>

datatype 'a doc = Malformed exn | Parsed 'a

text \<open>\<^verbatim>\<open>now_playing.txt\<close> has two writers with two shapes: \<^verbatim>\<open>queue.set_now_playing\<close>
  dumps a JSON object, \<^verbatim>\<open>MoviePlayer.update_now_playing\<close> writes the plain text
  \<^verbatim>\<open><path>|<unix-seconds>\<close>, and \<^verbatim>\<open>MoviePlayer.clear_now_playing\<close> writes the empty string.\<close>

datatype np_doc = NPEmpty | NPPlain string int | NPJson pydict

text \<open>A command payload in \<^verbatim>\<open>control.json\<close>: an object, or any other JSON value.\<close>

datatype payload = PDict pydict | PVal jval

datatype control_doc = CtlDict "(string \<times> payload) list" | CtlOther

datatype fname = PlaylistFile | NowPlayingFile | ControlFile

datatype fmode = ModeR | ModeW

datatype level = Debug | Info | Warning | Error | Critical

text \<open>Every effect other than the content of a document is recorded in a trace: the file
  and lock operations of \<^verbatim>\<open>locked_file\<close>, sleeps, and log lines (the text of a log line
  is abbreviated to ASCII; the line that announces the dispatch of a command keeps its
  arguments).\<close>

datatype event =
    Touch fname
  | OpenFile fname fmode
  | Acquire fname
  | Release fname
  | ReadDoc fname
  | WriteDoc fname
  | Log level string
  | Received string jval
  | Sleep nat

record world =
  playlist :: "entry list doc option"
  now_playing :: "np_doc option"
  control :: "control_doc doc option"
  trace :: "event list"

definition emit :: "event list \<Rightarrow> world \<Rightarrow> world" where
  "emit es w = w\<lparr>trace := trace w @ es\<rparr>"

definition exists_file :: "fname \<Rightarrow> world \<Rightarrow> bool" where
  "exists_file f w = (case f of
       PlaylistFile \<Rightarrow> playlist w \<noteq> None
     | NowPlayingFile \<Rightarrow> now_playing w \<noteq> None
     | ControlFile \<Rightarrow> control w \<noteq> None)"

section \<open>core/utils/filelock.py\<close>

text \<open>
  \<^verbatim>\<open>locked_file(path, mode)\<close> creates a missing file when opened for writing, opens it
  (mode \<^verbatim>\<open>w\<close> truncates at this point, before the lock is requested), takes the exclusive
  lock, runs the body and releases the lock on every exit path. The model is one process:
  \<^verbatim>\<open>flock\<close> succeeds at the first attempt, so the \<^verbatim>\<open>TimeoutError\<close> branch of the retry
  loop is not taken.
\<close>

definition locked_file_enter :: "fname \<Rightarrow> fmode \<Rightarrow> world \<Rightarrow> world" where
  "locked_file_enter f m w =
     emit ((if \<not> exists_file f w \<and> m = ModeW then [Touch f, Log Debug ''Created missing file''] else [])
           @ [OpenFile f m, Acquire f, Log Debug ''Lock acquired'']) w"

definition locked_file_exit :: "fname \<Rightarrow> world \<Rightarrow> world" where
  "locked_file_exit f w = emit [Release f, Log Debug ''Lock released''] w"

text \<open>\<^verbatim>\<open>write_locked_json\<close>, once per document type.\<close>

definition write_locked_json_playlist :: "entry list \<Rightarrow> world \<Rightarrow> world" where
  "write_locked_json_playlist data w =
     (let w1 = locked_file_enter PlaylistFile ModeW w;
          w2 = emit [WriteDoc PlaylistFile] (w1\<lparr>playlist := Some (Parsed data)\<rparr>);
          w3 = locked_file_exit PlaylistFile w2
      in emit [Log Info ''JSON written safely''] w3)"

text \<open>
  Modelled from the spec: \<^verbatim>\<open>read_locked_json\<close> is imported from
  \<^verbatim>\<open>core.utils.filelock\<close> by \<^verbatim>\<open>queue.py\<close>, \<^verbatim>\<open>controller.py\<close> and \<^verbatim>\<open>discordbot.py\<close>, but
  that module does not define it. Following section 4.1 and 4.2 of the specification it
  takes the lock of the document in a scope of its own, reads and parses the full
  document and releases the lock; a file that \<^verbatim>\<open>json.load\<close> rejects raises the exception of
  \<^verbatim>\<open>json.load\<close>, and opening a file that does not exist raises.
\<close>

definition read_locked_json_playlist :: "world \<Rightarrow> (exn + entry list) \<times> world" where
  "read_locked_json_playlist w =
     (let w1 = locked_file_enter PlaylistFile ModeR w;
          w2 = locked_file_exit PlaylistFile (emit [ReadDoc PlaylistFile] w1)
      in case playlist w of
           None \<Rightarrow> (Inl FileNotFoundError, w)
         | Some (Parsed xs) \<Rightarrow> (Inr xs, w2)
         | Some (Malformed x) \<Rightarrow> (Inl x, w2))"

definition read_locked_json_control :: "world \<Rightarrow> (exn + control_doc) \<times> world" where
  "read_locked_json_control w =
     (let w1 = locked_file_enter ControlFile ModeR w;
          w2 = locked_file_exit ControlFile (emit [ReadDoc ControlFile] w1)
      in case control w of
           None \<Rightarrow> (Inl FileNotFoundError, w)
         | Some (Parsed d) \<Rightarrow> (Inr d, w2)
         | Some (Malformed x) \<Rightarrow> (Inl x, w2))"

section \<open>core/queue.py\<close>

definition generate_entry ::
  "string \<Rightarrow> string \<Rightarrow> int \<Rightarrow> string \<Rightarrow> string \<Rightarrow> string \<Rightarrow> int \<Rightarrow> entry" where
  "generate_entry title filepath duration source added_by uuid4 now =
     [(''id'', JStr uuid4), (''title'', JStr title), (''filepath'', JStr filepath),
      (''duration'', JInt duration), (''type'', JStr source), (''added_by'', JStr added_by),
      (''timestamp'', JInt now)]"

definition load_playlist :: "world \<Rightarrow> entry list \<times> world" where
  "load_playlist w =
     (if \<not> exists_file PlaylistFile w then ([], w)
      else case read_locked_json_playlist w of
             (Inr xs, w1) \<Rightarrow> (xs, w1)
           | (Inl e, w1) \<Rightarrow> ([], emit [Log Error ''Failed to load playlist''] w1))"

definition save_playlist :: "entry list \<Rightarrow> world \<Rightarrow> world" where
  "save_playlist data w =
     emit [Log Debug ''Playlist saved successfully.''] (write_locked_json_playlist data w)"

text \<open>The fresh id (\<^verbatim>\<open>uuid.uuid4()\<close>) and the clock (\<^verbatim>\<open>int(time.time())\<close>) are inputs.\<close>

definition add_to_queue ::
  "string \<Rightarrow> string \<Rightarrow> int \<Rightarrow> string \<Rightarrow> string \<Rightarrow> string \<Rightarrow> int \<Rightarrow> world \<Rightarrow> entry \<times> world" where
  "add_to_queue title filepath duration source added_by uuid4 now w =
     (let (queue, w1) = load_playlist w;
          new_entry = generate_entry title filepath duration source added_by uuid4 now;
          w2 = save_playlist (queue @ [new_entry]) w1
      in (new_entry, emit [Log Info ''Added to queue''] w2))"

definition get_queue :: "world \<Rightarrow> entry list \<times> world" where
  "get_queue w = load_playlist w"

text \<open>\<^verbatim>\<open>entry["id"]\<close> raises \<^verbatim>\<open>KeyError\<close> on an entry without that key.\<close>

definition subscript :: "pydict \<Rightarrow> string \<Rightarrow> exn + jval" where
  "subscript d k = (case map_of d k of None \<Rightarrow> Inl (KeyError k) | Some v \<Rightarrow> Inr v)"



text \<open>The comprehension \<^verbatim>\<open>[q for q in queue if q["id"] != entry_id]\<close>.\<close>

fun remove_filter :: "entry list \<Rightarrow> string \<Rightarrow> exn + entry list" where
  "remove_filter [] entry_id = Inr []"
| "remove_filter (q # qs) entry_id =
     (case subscript q ''id'' of
        Inl x \<Rightarrow> Inl x
      | Inr v \<Rightarrow>
          (case remove_filter qs entry_id of
             Inl x \<Rightarrow> Inl x
           | Inr rest \<Rightarrow> Inr (if \<not> py_eq v (JStr entry_id) then q # rest else rest)))"

definition remove_by_id :: "string \<Rightarrow> world \<Rightarrow> (exn + bool) \<times> world" where
  "remove_by_id entry_id w =
     (let (queue, w1) = load_playlist w
      in case remove_filter queue entry_id of
           Inl x \<Rightarrow> (Inl x, w1)
         | Inr new_queue \<Rightarrow>
             if length new_queue < length queue
             then (Inr True, emit [Log Info ''Removed entry by ID''] (save_playlist new_queue w1))
             else (Inr False, emit [Log Warning ''Entry ID not found for removal''] w1))"

definition clear_queue :: "world \<Rightarrow> world" where
  "clear_queue w = emit [Log Warning ''Playlist cleared manually by user.''] (save_playlist [] w)"

definition get_next_item :: "world \<Rightarrow> entry option \<times> world" where
  "get_next_item w =
     (let (queue, w1) = load_playlist w
      in (case queue of [] \<Rightarrow> None | e # _ \<Rightarrow> Some e, w1))"

text \<open>\<^verbatim>\<open>remove_current\<close>: the log line after the write reads \<^verbatim>\<open>removed['title']\<close>; on
  an entry without a title it raises, when the entry is already removed from the document.\<close>

definition remove_current :: "world \<Rightarrow> (exn + entry option) \<times> world" where
  "remove_current w =
     (let (queue, w1) = load_playlist w
      in case queue of
           [] \<Rightarrow> (Inr None, w1)
         | removed # rest \<Rightarrow>
             (let w2 = save_playlist rest w1
              in case subscript removed ''title'' of
                   Inl x \<Rightarrow> (Inl x, w2)
                 | Inr _ \<Rightarrow> (Inr (Some removed), emit [Log Info ''Removed current item''] w2)))"

definition peek_current :: "world \<Rightarrow> entry option \<times> world" where
  "peek_current w = get_next_item w"

definition is_empty :: "world \<Rightarrow> bool \<times> world" where
  "is_empty w = (let (queue, w1) = load_playlist w in (length queue = 0, w1))"

fun get_by_id_scan :: "entry list \<Rightarrow> string \<Rightarrow> entry option" where
  "get_by_id_scan [] entry_id = None"
| "get_by_id_scan (e # es) entry_id =
     (if py_eq (pyget e ''id'') (JStr entry_id) then Some e else get_by_id_scan es entry_id)"

definition get_by_id :: "string \<Rightarrow> world \<Rightarrow> entry option \<times> world" where
  "get_by_id entry_id w =
     (let (queue, w1) = load_playlist w
      in case get_by_id_scan queue entry_id of
           Some e \<Rightarrow> (Some e, emit [Log Debug ''Found entry by ID''] w1)
         | None \<Rightarrow> (None, emit [Log Warning ''Entry ID not found''] w1))"





text \<open>\<^verbatim>\<open>get_total_duration\<close> sums \<^verbatim>\<open>int(entry.get("duration", 0))\<close>; the conversion
  \<^verbatim>\<open>int()\<close> of Python is a parameter.\<close>

fun sum_durations :: "(jval \<Rightarrow> exn + int) \<Rightarrow> entry list \<Rightarrow> exn + int" where
  "sum_durations to_int [] = Inr 0"
| "sum_durations to_int (e # es) =
     (case to_int (pyget_default e ''duration'' (JInt 0)) of
        Inl x \<Rightarrow> Inl x
      | Inr n \<Rightarrow>
          (case sum_durations to_int es of
             Inl x \<Rightarrow> Inl x
           | Inr m \<Rightarrow> Inr (n + m)))"

definition get_total_duration :: "(jval \<Rightarrow> exn + int) \<Rightarrow> world \<Rightarrow> (exn + int) \<times> world" where
  "get_total_duration to_int w =
     (let (queue, w1) = load_playlist w
      in case sum_durations to_int queue of
           Inl x \<Rightarrow> (Inl x, w1)
         | Inr n \<Rightarrow> (Inr n, emit [Log Debug ''Total playlist duration''] w1))"

subsection \<open>Now-Playing in queue.py\<close>

text \<open>\<^verbatim>\<open>set_now_playing\<close> opens the file without a lock and dumps a JSON object; the
  debug line reads \<^verbatim>\<open>entry['title']\<close> after the file is closed, and a missing title is
  caught and logged as a write failure.\<close>

definition set_now_playing :: "entry \<Rightarrow> int \<Rightarrow> world \<Rightarrow> world" where
  "set_now_playing e now w =
     (let w1 = emit [OpenFile NowPlayingFile ModeW, WriteDoc NowPlayingFile]
                 (w\<lparr>now_playing := Some (NPJson
                     [(''id'', pyget e ''id''), (''filepath'', pyget e ''filepath''),
                      (''timestamp'', JInt now)])\<rparr>)
      in case subscript e ''title'' of
           Inr _ \<Rightarrow> emit [Log Debug ''Now playing set''] w1
         | Inl _ \<Rightarrow> emit [Log Error ''Failed to write now_playing.txt''] w1)"

text \<open>\<^verbatim>\<open>Path(p).stem\<close> for POSIX paths: the last component that is neither empty nor
  \<^verbatim>\<open>.\<close>, without its last suffix.\<close>

fun split_on :: "char \<Rightarrow> string \<Rightarrow> string list" where
  "split_on c [] = [[]]"
| "split_on c (x # xs) =
     (if x = c then [] # split_on c xs
      else (case split_on c xs of [] \<Rightarrow> [[x]] | y # ys \<Rightarrow> (x # y) # ys))"

definition path_name :: "string \<Rightarrow> string" where
  "path_name p =
     (let parts = filter (\<lambda>s. s \<noteq> [] \<and> s \<noteq> ''.'') (split_on CHR ''/'' p)
      in if parts = [] then [] else last parts)"

definition path_stem :: "string \<Rightarrow> string" where
  "path_stem p =
     (let name = path_name p;
          j = length (takeWhile (\<lambda>c. c \<noteq> CHR ''.'') (rev name))
      in if j < length name \<and> 0 < j \<and> 0 < length name - 1 - j
         then take (length name - 1 - j) name else name)"

text \<open>The join of \<^verbatim>\<open>get_now_playing\<close>: the first queue entry whose \<^verbatim>\<open>filepath\<close> equals
  the recorded one.\<close>

fun np_scan :: "entry list \<Rightarrow> jval \<Rightarrow> exn + entry option" where
  "np_scan [] fp = Inr None"
| "np_scan (e # es) fp =
     (case subscript e ''filepath'' of
        Inl x \<Rightarrow> Inl x
      | Inr v \<Rightarrow> if py_eq v fp then Inr (Some e) else np_scan es fp)"

definition degraded_record :: "pydict \<Rightarrow> exn + entry" where
  "degraded_record now_data =
     (case pyget_default now_data ''filepath'' (JStr []) of
        JStr p \<Rightarrow>
          Inr [(''title'', JStr (path_stem p)), (''filepath'', pyget now_data ''filepath''),
               (''duration'', JInt 0), (''type'', JStr ''unknown''),
               (''added_by'', JStr ''unknown''),
               (''timestamp'', pyget_default now_data ''timestamp'' (JInt 0))]
      | _ \<Rightarrow> Inl TypeError)"

definition get_now_playing :: "world \<Rightarrow> entry option \<times> world" where
  "get_now_playing w =
     (if \<not> exists_file NowPlayingFile w then (None, w)
      else
        let w1 = emit [OpenFile NowPlayingFile ModeR, ReadDoc NowPlayingFile] w
        in case now_playing w of
             Some (NPJson now_data) \<Rightarrow>
               (let (queue, w2) = load_playlist w1
                in case np_scan queue (pyget now_data ''filepath'') of
                     Inl x \<Rightarrow> (None, emit [Log Error ''Failed to parse now_playing.txt''] w2)
                   | Inr (Some e) \<Rightarrow> (Some e, w2)
                   | Inr None \<Rightarrow>
                       (case degraded_record now_data of
                          Inr r \<Rightarrow> (Some r, w2)
                        | Inl x \<Rightarrow> (None, emit [Log Error ''Failed to parse now_playing.txt''] w2)))
           | _ \<Rightarrow> (None, emit [Log Error ''Failed to parse now_playing.txt''] w1))"

section \<open>core/player.py: MoviePlayer\<close>

text \<open>
  Modelled from the spec: the class \<^verbatim>\<open>FileLock\<close> that \<^verbatim>\<open>player.py\<close> imports from
  \<^verbatim>\<open>core.utils.filelock\<close> is not defined there. Following section 4.1 of the
  specification, \<^verbatim>\<open>with FileLock(path)\<close> is a scoped exclusive lock on the path that is
  released on every exit path.
\<close>

definition FileLock_enter :: "fname \<Rightarrow> world \<Rightarrow> world" where
  "FileLock_enter f w = emit [Acquire f] w"

definition FileLock_exit :: "fname \<Rightarrow> world \<Rightarrow> world" where
  "FileLock_exit f w = emit [Release f] w"

definition retry_limit :: nat where
  "retry_limit = 3"

text \<open>\<^verbatim>\<open>get_next_video\<close> catches \<^verbatim>\<open>json.JSONDecodeError\<close> only; any other exception of
  \<^verbatim>\<open>json.load\<close> leaves the function (the lock is released on the way).\<close>

definition get_next_video ::
  "world \<Rightarrow> (exn + (entry option \<times> entry list option)) \<times> world" where
  "get_next_video w =
     (let w1 = FileLock_enter PlaylistFile w;
          w2 = emit [OpenFile PlaylistFile ModeR, ReadDoc PlaylistFile] w1
      in case playlist w of
           None \<Rightarrow> (Inr (None, None), FileLock_exit PlaylistFile w1)
         | Some (Parsed data) \<Rightarrow>
             (case data of
                [] \<Rightarrow> (Inr (None, Some data), FileLock_exit PlaylistFile w2)
              | v # rest \<Rightarrow> (Inr (Some v, Some rest), FileLock_exit PlaylistFile w2))
         | Some (Malformed x) \<Rightarrow>
             if x = JSONDecodeError
             then (Inr (None, Some []),
                   FileLock_exit PlaylistFile (emit [Log Error ''Playlist file is corrupted.''] w2))
             else (Inl x, FileLock_exit PlaylistFile w2))"

definition write_updated_playlist :: "entry list \<Rightarrow> world \<Rightarrow> world" where
  "write_updated_playlist updated w =
     FileLock_exit PlaylistFile
       (emit [OpenFile PlaylistFile ModeW, WriteDoc PlaylistFile]
          ((FileLock_enter PlaylistFile w)\<lparr>playlist := Some (Parsed updated)\<rparr>))"

text \<open>\<^verbatim>\<open>str(v)\<close> inside the f-string of \<^verbatim>\<open>update_now_playing\<close>.\<close>

fun digits_of :: "nat \<Rightarrow> string" where
  "digits_of n =
     (if n < 10 then [char_of (48 + n)] else digits_of (n div 10) @ [char_of (48 + n mod 10)])"

fun py_str :: "jval \<Rightarrow> string" where
  "py_str JNull = ''None''"
| "py_str (JBool b) = (if b then ''True'' else ''False'')"
| "py_str (JInt n) = (if n < 0 then CHR ''-'' # digits_of (nat (- n)) else digits_of (nat n))"
| "py_str (JStr s) = s"

text \<open>\<^verbatim>\<open>update_now_playing\<close> writes the plain \<^verbatim>\<open><path>|<unix-seconds>\<close> text. The file is
  opened (and so emptied) before \<^verbatim>\<open>metadata['file_path']\<close> is evaluated.\<close>

definition update_now_playing :: "entry \<Rightarrow> int \<Rightarrow> world \<Rightarrow> exn option \<times> world" where
  "update_now_playing metadata now w =
     (let w1 = emit [OpenFile NowPlayingFile ModeW] (FileLock_enter NowPlayingFile w)
      in case subscript metadata ''file_path'' of
           Inl x \<Rightarrow> (Some x, FileLock_exit NowPlayingFile (w1\<lparr>now_playing := Some NPEmpty\<rparr>))
         | Inr v \<Rightarrow>
             (None,
              emit [Log Info ''Now playing'']
                (FileLock_exit NowPlayingFile
                   (emit [WriteDoc NowPlayingFile]
                      (w1\<lparr>now_playing := Some (NPPlain (py_str v) now)\<rparr>)))))"

definition clear_now_playing :: "world \<Rightarrow> world" where
  "clear_now_playing w =
     emit [Log Info ''Cleared now_playing.txt'']
       (FileLock_exit NowPlayingFile
          (emit [OpenFile NowPlayingFile ModeW, WriteDoc NowPlayingFile]
             ((FileLock_enter NowPlayingFile w)\<lparr>now_playing := Some NPEmpty\<rparr>)))"

fun payload_truthy :: "payload \<Rightarrow> bool" where
  "payload_truthy (PDict d) = (d \<noteq> [])"
| "payload_truthy (PVal v) = py_truthy v"

definition should_skip :: "world \<Rightarrow> bool \<times> world" where
  "should_skip w =
     (let w1 = FileLock_enter ControlFile w
      in if \<not> exists_file ControlFile w then (False, FileLock_exit ControlFile w1)
         else
           let w2 = FileLock_exit ControlFile (emit [OpenFile ControlFile ModeR, ReadDoc ControlFile] w1)
           in case control w of
                Some (Parsed (CtlDict data)) \<Rightarrow>
                  (case map_of data ''skip'' of
                     None \<Rightarrow> (False, w2)
                   | Some p \<Rightarrow> (payload_truthy p, w2))
              | _ \<Rightarrow> (False, emit [Log Error ''Failed to read control file''] w2))"

definition reset_controls :: "world \<Rightarrow> world" where
  "reset_controls w =
     emit [Log Info ''Reset control.json'']
       (FileLock_exit ControlFile
          (emit [OpenFile ControlFile ModeW, WriteDoc ControlFile]
             ((FileLock_enter ControlFile w)\<lparr>control := Some (Parsed (CtlDict []))\<rparr>)))"


subsection \<open>play_video and play_loop as a step function\<close>

text \<open>
  \<^verbatim>\<open>play_video\<close> blocks while the film streams. It is cut at its suspension points: the
  part up to the launch of FFmpeg, one iteration of the streaming loop, and the part after
  the loop. What the environment decides is an input of each step: whether the media file
  exists, whether \<^verbatim>\<open>subprocess.Popen\<close> succeeds, the seconds elapsed since the launch,
  whether the FFmpeg process has exited, and the clock.
\<close>

record obs =
  file_exists :: bool
  launch_ok :: bool
  elapsed :: int
  proc_exited :: bool
  clock :: int

datatype begin_result = Dropped | Raised exn | Launched int

definition play_video_begin :: "obs \<Rightarrow> entry \<Rightarrow> entry list \<Rightarrow> world \<Rightarrow> begin_result \<times> world" where
  "play_video_begin ob video updated_playlist w =
     (let file_path = pyget video ''file_path''
      in if \<not> py_truthy file_path
         then (Dropped, write_updated_playlist updated_playlist (emit [Log Warning ''File not found''] w))
         else case file_path of
                JStr p \<Rightarrow>
                  if \<not> file_exists ob
                  then (Dropped,
                        write_updated_playlist updated_playlist (emit [Log Warning ''File not found''] w))
                  else
                    (case update_now_playing video (clock ob) w of
                       (Some x, w1) \<Rightarrow> (Raised x, w1)
                     | (None, w1) \<Rightarrow>
                         let w2 = emit [Log Info ''Launching FFmpeg''] w1
                         in if \<not> launch_ok ob then (Raised OSError, w2)
                            else case pyget_default video ''duration'' (JInt 0) of
                                   JInt n \<Rightarrow>
                                     (Launched (if n > 0 then n else 3600), emit [Log Info ''Streaming''] w2)
                                 | JBool b \<Rightarrow>
                                     (Launched (if b then 1 else 3600), emit [Log Info ''Streaming''] w2)
                                 | _ \<Rightarrow> (Raised TypeError, w2))
              | _ \<Rightarrow> (Raised TypeError, w))"

definition play_video_finish :: "obs \<Rightarrow> entry list \<Rightarrow> world \<Rightarrow> world" where
  "play_video_finish ob updated_playlist w =
     (let w1 = (if \<not> proc_exited ob then emit [Log Info ''FFmpeg terminated''] w else w)
      in emit [Sleep 1] (write_updated_playlist updated_playlist (clear_now_playing w1)))"

text \<open>The engine is idle (at the head of \<^verbatim>\<open>play_loop\<close>), holds an entry it took from
  \<^verbatim>\<open>get_next_video\<close> together with the rest of the list and the retry count, or streams
  it until \<open>max_play\<close> seconds have elapsed. The call of \<^verbatim>\<open>get_next_video\<close> is outside
  the \<^verbatim>\<open>try\<close> of \<^verbatim>\<open>play_loop\<close>: an exception that leaves it ends \<^verbatim>\<open>play_loop\<close>
  (\<^verbatim>\<open>run_player\<close> catches \<^verbatim>\<open>KeyboardInterrupt\<close> only), and the engine stays crashed.\<close>

datatype phase =
  Idle | Loaded entry "entry list" nat | Streaming entry "entry list" nat int | Crashed exn

definition play_loop_step :: "obs \<Rightarrow> phase \<times> world \<Rightarrow> phase \<times> world" where
  "play_loop_step ob s =
     (case s of
        (Idle, w) \<Rightarrow>
          (case get_next_video w of
             (Inl x, w1) \<Rightarrow> (Crashed x, w1)
           | (Inr (Some v, Some updated), w1) \<Rightarrow>
               if v = [] then (Idle, emit [Log Info ''Playlist empty. Sleeping 10s'', Sleep 10] w1)
               else (Loaded v updated 0, w1)
           | (Inr _, w1) \<Rightarrow> (Idle, emit [Log Info ''Playlist empty. Sleeping 10s'', Sleep 10] w1))
      | (Crashed x, w) \<Rightarrow> (Crashed x, w)
      | (Loaded v updated retries, w) \<Rightarrow>
          if retries < retry_limit
          then (case play_video_begin ob v updated w of
                  (Dropped, w1) \<Rightarrow> (Idle, w1)
                | (Raised x, w1) \<Rightarrow>
                    (Loaded v updated (Suc retries), emit [Log Error ''Retry failed'', Sleep 2] w1)
                | (Launched max_play, w1) \<Rightarrow> (Streaming v updated retries max_play, w1))
          else (Idle,
                write_updated_playlist updated
                  (clear_now_playing (emit [Log Error ''Video failed after max retries. Skipping.''] w)))
      | (Streaming v updated retries max_play, w) \<Rightarrow>
          if \<not> elapsed ob < max_play then (Idle, play_video_finish ob updated w)
          else (case should_skip w of
                  (True, w1) \<Rightarrow>
                    (Idle,
                     play_video_finish ob updated
                       (reset_controls (emit [Log Info ''Skip command received''] w1)))
                | (False, w1) \<Rightarrow>
                    if proc_exited ob
                    then (Idle, play_video_finish ob updated (emit [Log Warning ''FFmpeg exited early''] w1))
                    else (Streaming v updated retries max_play, emit [Sleep 1] w1)))"



section \<open>core/controller.py: ControlManager\<close>

record controller =
  last_request_ids :: pydict
  paused :: bool
  emitter :: "entry option"

text \<open>What the environment decides during one poll: which entries the emitter can play
  (media present and launch successful) and the clock.\<close>

record env =
  playable :: "entry \<Rightarrow> bool"
  now :: int

definition VALID_COMMANDS :: "string list" where
  "VALID_COMMANDS = [''pause'', ''resume'', ''skip'', ''stop'', ''reload'']"

text \<open>
  Modelled from the spec: the class \<^verbatim>\<open>FFmpegPlayer\<close> that \<^verbatim>\<open>controller.py\<close> imports from
  \<^verbatim>\<open>core.player\<close> is not defined there (the module defines \<^verbatim>\<open>MoviePlayer\<close> only). Its state
  is the live emitter, kept in the field \<open>emitter\<close>. Following section 4.5 of the
  specification, \<^verbatim>\<open>stop_stream\<close> is the transition from Streaming to Idle (emitter
  terminated, Now-Playing cleared), and \<^verbatim>\<open>run_once\<close> is one run cycle from Idle: with a
  non-empty queue the front entry is popped from the Queue Store, the emitter is launched
  and Now-Playing is set; an entry that cannot be played is dropped without retry. The pop
  is the \<^verbatim>\<open>pop_front\<close> of section 4.2: one read-modify-write of the queue document that
  returns the front entry, or none on an empty store.
\<close>

definition pop_front :: "world \<Rightarrow> entry option \<times> world" where
  "pop_front w =
     (let (queue, w1) = load_playlist w
      in case queue of
           [] \<Rightarrow> (None, w1)
         | e # rest \<Rightarrow> (Some e, save_playlist rest w1))"

definition stop_stream :: "controller \<times> world \<Rightarrow> controller \<times> world" where
  "stop_stream s =
     (case s of (c, w) \<Rightarrow>
        (case emitter c of
           None \<Rightarrow> (c, w)
         | Some _ \<Rightarrow> (c\<lparr>emitter := None\<rparr>, clear_now_playing w)))"

definition run_once :: "env \<Rightarrow> controller \<times> world \<Rightarrow> controller \<times> world" where
  "run_once ev s =
     (case s of (c, w) \<Rightarrow>
        (case pop_front w of
           (None, w1) \<Rightarrow> (c, w1)
         | (Some e, w1) \<Rightarrow>
             if playable ev e then (c\<lparr>emitter := Some e\<rparr>, set_now_playing e (now ev) w1)
             else (c, w1)))"

definition handle_pause :: "jval \<Rightarrow> controller \<times> world \<Rightarrow> controller \<times> world" where
  "handle_pause user s =
     (case s of (c, w) \<Rightarrow>
        if paused c then (c, emit [Log Info ''Already paused. Ignoring.''] w)
        else stop_stream (c\<lparr>paused := True\<rparr>, emit [Log Info ''Playback paused''] w))"

definition handle_resume :: "env \<Rightarrow> jval \<Rightarrow> controller \<times> world \<Rightarrow> controller \<times> world" where
  "handle_resume ev user s =
     (case s of (c, w) \<Rightarrow>
        if \<not> paused c then (c, emit [Log Info ''Already playing. Ignoring resume.''] w)
        else run_once ev (c\<lparr>paused := False\<rparr>, emit [Log Info ''Playback resumed''] w))"

definition handle_skip :: "env \<Rightarrow> jval \<Rightarrow> controller \<times> world \<Rightarrow> controller \<times> world" where
  "handle_skip ev user s =
     (case s of (c, w) \<Rightarrow>
        (case stop_stream (c\<lparr>paused := False\<rparr>, emit [Log Info ''Skip command issued''] w) of
           (c1, w1) \<Rightarrow>
             (case get_next_item w1 of
                (Some next_video, w2) \<Rightarrow>
                  if next_video \<noteq> []
                  then run_once ev
                         (c1, set_now_playing next_video (now ev) (emit [Log Info ''Next video queued''] w2))
                  else (c1, emit [Log Warning ''Queue is empty. No next video to play.''] w2)
              | (None, w2) \<Rightarrow> (c1, emit [Log Warning ''Queue is empty. No next video to play.''] w2))))"

definition handle_stop :: "jval \<Rightarrow> controller \<times> world \<Rightarrow> controller \<times> world" where
  "handle_stop user s =
     (case s of (c, w) \<Rightarrow> stop_stream (c\<lparr>paused := False\<rparr>, emit [Log Info ''Playback stopped''] w))"

definition handle_reload :: "jval \<Rightarrow> controller \<times> world \<Rightarrow> controller \<times> world" where
  "handle_reload user s = (case s of (c, w) \<Rightarrow> (c, emit [Log Info ''Reloading configuration''] w))"

definition apply_command :: "env \<Rightarrow> string \<Rightarrow> jval \<Rightarrow> controller \<times> world \<Rightarrow> controller \<times> world" where
  "apply_command ev command user s =
     (if command = ''pause'' then handle_pause user s
      else if command = ''resume'' then handle_resume ev user s
      else if command = ''skip'' then handle_skip ev user s
      else if command = ''stop'' then handle_stop user s
      else if command = ''reload'' then handle_reload user s
      else (fst s, emit [Log Error ''No handler for command''] (snd s)))"

definition is_duplicate :: "controller \<Rightarrow> string \<Rightarrow> jval \<Rightarrow> bool" where
  "is_duplicate c command request_id = py_eq (pyget (last_request_ids c) command) request_id"

text \<open>The body of the loop over \<^verbatim>\<open>command_data.items()\<close> (a \<^verbatim>\<open>continue\<close> ends the body
  without an exception), and the loop. \<^verbatim>\<open>payload.get\<close> on a payload that is not an object
  raises and ends the loop; what was applied before stays applied.\<close>

definition process_item ::
  "env \<Rightarrow> string \<times> payload \<Rightarrow> controller \<times> world \<Rightarrow> exn option \<times> controller \<times> world" where
  "process_item ev item s =
     (case item of (command, pl) \<Rightarrow>
        if command \<notin> set VALID_COMMANDS
        then (None, fst s, emit [Log Warning ''Invalid command''] (snd s))
        else case pl of
               PVal _ \<Rightarrow> (Some AttributeError, s)
             | PDict d \<Rightarrow>
                 let request_id = pyget d ''id'';
                     user = pyget_default d ''user'' (JStr ''Unknown'')
                 in if \<not> py_truthy request_id
                    then (None, fst s, emit [Log Warning ''Missing request ID''] (snd s))
                    else if is_duplicate (fst s) command request_id
                    then (None, fst s, emit [Log Debug ''Duplicate command ignored''] (snd s))
                    else (None,
                          apply_command ev command user
                            ((fst s)\<lparr>last_request_ids :=
                                        AList.update command request_id (last_request_ids (fst s))\<rparr>,
                             emit [Received command user] (snd s))))"

fun process_items ::
  "env \<Rightarrow> (string \<times> payload) list \<Rightarrow> controller \<times> world \<Rightarrow> exn option \<times> controller \<times> world" where
  "process_items ev [] s = (None, s)"
| "process_items ev (item # items) s =
     (case process_item ev item s of
        (Some x, s1) \<Rightarrow> (Some x, s1)
      | (None, s1) \<Rightarrow> process_items ev items s1)"

definition check_for_new_command ::
  "env \<Rightarrow> controller \<times> world \<Rightarrow> exn option \<times> controller \<times> world" where
  "check_for_new_command ev s =
     (case s of (c, w) \<Rightarrow>
        if \<not> exists_file ControlFile w then (None, s)
        else case read_locked_json_control w of
               (Inl x, w1) \<Rightarrow> (Some x, (c, w1))
             | (Inr CtlOther, w1) \<Rightarrow> (None, (c, emit [Log Warning ''Invalid format in control.json.''] w1))
             | (Inr (CtlDict command_data), w1) \<Rightarrow> process_items ev command_data (c, w1))"

text \<open>One iteration of \<^verbatim>\<open>_watch_loop\<close> (with the default interval of one second), and a
  run of the loop in which the front-ends may rewrite \<^verbatim>\<open>control.json\<close> between two polls:
  each iteration is given the environment and the control document found by that poll.\<close>

definition watch_loop_iter :: "env \<Rightarrow> controller \<times> world \<Rightarrow> controller \<times> world" where
  "watch_loop_iter ev s =
     (case check_for_new_command ev s of
        (None, (c, w)) \<Rightarrow> (c, emit [Sleep 1] w)
      | (Some x, (c, w)) \<Rightarrow> (c, emit [Log Error ''Exception in controller loop'', Sleep 1] w))"

fun watch_loop ::
  "(env \<times> control_doc doc option) list \<Rightarrow> controller \<times> world \<Rightarrow> controller \<times> world" where
  "watch_loop [] s = s"
| "watch_loop ((ev, d) # polls) s =
     watch_loop polls (watch_loop_iter ev (fst s, (snd s)\<lparr>control := d\<rparr>))"


section \<open>core/main.py: the supervisor\<close>

text \<open>
  The module-level tables \<^verbatim>\<open>threads\<close>, \<^verbatim>\<open>thread_targets\<close> and \<^verbatim>\<open>restart_counters\<close> are
  dictionaries keyed by the worker name. A thread object is represented by what
  \<^verbatim>\<open>is_alive()\<close> returns for it; a target function by its name.
\<close>

datatype sevent = Slept nat | Spawned string | Note level string string

record supervisor =
  threads :: "(string \<times> bool) list"
  thread_targets :: "(string \<times> string) list"
  restart_counters :: "(string \<times> nat) list"
  running :: bool
  strace :: "sevent list"

definition MAX_RESTART_ATTEMPTS :: nat where
  "MAX_RESTART_ATTEMPTS = 5"

definition RESTART_BACKOFF :: nat where
  "RESTART_BACKOFF = 5"

definition slog :: "sevent list \<Rightarrow> supervisor \<Rightarrow> supervisor" where
  "slog es s = s\<lparr>strace := strace s @ es\<rparr>"

definition start_thread :: "string \<Rightarrow> string \<Rightarrow> supervisor \<Rightarrow> supervisor" where
  "start_thread name target s =
     (if map_of (threads s) name = Some True
      then slog [Note Warning ''already running'' name] s
      else slog [Spawned name, Note Info ''Started thread'' name]
             (s\<lparr>threads := AList.update name True (threads s),
                thread_targets := AList.update name target (thread_targets s),
                restart_counters :=
                  (case map_of (restart_counters s) name of
                     None \<Rightarrow> AList.update name 0 (restart_counters s)
                   | Some _ \<Rightarrow> restart_counters s)\<rparr>))"

text \<open>The body of the \<^verbatim>\<open>for\<close> loop of \<^verbatim>\<open>monitor\<close> for one name. The increment
  \<^verbatim>\<open>restart_counters[name] += 1\<close> is outside the \<^verbatim>\<open>try\<close>; the lookup
  \<^verbatim>\<open>thread_targets[name]\<close> is inside it.\<close>

definition monitor_body :: "string \<Rightarrow> supervisor \<Rightarrow> exn option \<times> supervisor" where
  "monitor_body name s =
     (if map_of (threads s) name \<noteq> Some False then (None, s)
      else
        let s1 = slog [Note Warning ''no longer alive'' name] s;
            attempts = (case map_of (restart_counters s1) name of None \<Rightarrow> 0 | Some n \<Rightarrow> n)
        in if attempts \<ge> MAX_RESTART_ATTEMPTS
           then (None, slog [Note Critical ''Max restart attempts reached'' name] s1)
           else
             let s2 = slog [Note Info ''Attempting to restart'' name, Slept RESTART_BACKOFF] s1
             in case map_of (restart_counters s2) name of
                  None \<Rightarrow> (Some (KeyError name), s2)
                | Some n \<Rightarrow>
                    let s3 = s2\<lparr>restart_counters := AList.update name (n + 1) (restart_counters s2)\<rparr>
                    in case map_of (thread_targets s3) name of
                         None \<Rightarrow> (None, slog [Note Error ''Failed to restart'' name] s3)
                       | Some target \<Rightarrow> (None, start_thread name target s3))"

fun monitor_names :: "string list \<Rightarrow> supervisor \<Rightarrow> exn option \<times> supervisor" where
  "monitor_names [] s = (None, s)"
| "monitor_names (name # names) s =
     (case monitor_body name s of
        (Some x, s1) \<Rightarrow> (Some x, s1)
      | (None, s1) \<Rightarrow> monitor_names names s1)"

text \<open>One pass of the \<^verbatim>\<open>while running\<close> loop over the snapshot \<^verbatim>\<open>list(threads.items())\<close>.\<close>

definition monitor_pass :: "supervisor \<Rightarrow> exn option \<times> supervisor" where
  "monitor_pass s =
     (case monitor_names (map fst (threads s)) s of
        (Some x, s1) \<Rightarrow> (Some x, s1)
      | (None, s1) \<Rightarrow> (None, slog [Slept 3] s1))"

text \<open>Workers die on their own (the target returns or crashes inside the wrapper) between
  and during the passes of the monitor; an exception that leaves \<^verbatim>\<open>monitor\<close> ends it.\<close>

datatype sup_action = Die string | MonitorPass

fun run_monitor :: "sup_action list \<Rightarrow> supervisor \<Rightarrow> exn option \<times> supervisor" where
  "run_monitor [] s = (None, s)"
| "run_monitor (Die name # acts) s =
     run_monitor acts
       (if map_of (threads s) name = None then s
        else s\<lparr>threads := AList.update name False (threads s)\<rparr>)"
| "run_monitor (MonitorPass # acts) s =
     (if \<not> running s then (None, s)
      else case monitor_pass s of
             (Some x, s1) \<Rightarrow> (Some x, s1)
           | (None, s1) \<Rightarrow> run_monitor acts s1)"

section \<open>Observations used by the properties\<close>

text \<open>What a reader of the Queue Store gets: the parsed list, or nothing for an absent or
  malformed document.\<close>

definition stored :: "world \<Rightarrow> entry list" where
  "stored w = (case playlist w of Some (Parsed xs) \<Rightarrow> xs | _ \<Rightarrow> [])"

text \<open>The events that an operation added to the trace.\<close>

definition new_events :: "world \<Rightarrow> world \<Rightarrow> event list" where
  "new_events w w' = drop (length (trace w)) (trace w')"

definition new_sevents :: "supervisor \<Rightarrow> supervisor \<Rightarrow> sevent list" where
  "new_sevents s s' = drop (length (strace s)) (strace s')"




text \<open>The number of dispatches of a command kind in a trace.\<close>

fun is_received :: "string \<Rightarrow> event \<Rightarrow> bool" where
  "is_received k (Received c u) = (c = k)"
| "is_received k _ = False"

definition count_received :: "string \<Rightarrow> event list \<Rightarrow> nat" where
  "count_received k es = length (filter (is_received k) es)"

text \<open>The number of thread starts of a worker in a supervisor trace, and whether each
  start in a trace comes directly after the back-off sleep.\<close>

definition count_spawned :: "string \<Rightarrow> sevent list \<Rightarrow> nat" where
  "count_spawned name es = length (filter (\<lambda>e. e = Spawned name) es)"

fun is_spawn :: "sevent \<Rightarrow> bool" where
  "is_spawn (Spawned n) = True"
| "is_spawn _ = False"

fun spawns_follow :: "sevent option \<Rightarrow> sevent list \<Rightarrow> bool" where
  "spawns_follow prev [] = True"
| "spawns_follow prev (e # es) =
     ((is_spawn e \<longrightarrow> prev = Some (Slept RESTART_BACKOFF)) \<and> spawns_follow (Some e) es)"

definition spawn_after_backoff :: "sevent list \<Rightarrow> bool" where
  "spawn_after_backoff es = spawns_follow None es"

text \<open>Sequences of the two queue operations of the FIFO property. A run returns what each
  pop returned, in order, and stops at the first exception.\<close>

datatype qop = Append string string int string string string int | PopFront

fun run_qops :: "qop list \<Rightarrow> world \<Rightarrow> (exn + entry option list) \<times> world" where
  "run_qops [] w = (Inr [], w)"
| "run_qops (Append title filepath duration source added_by uuid4 t # ops) w =
     run_qops ops (snd (add_to_queue title filepath duration source added_by uuid4 t w))"
| "run_qops (PopFront # ops) w =
     (case remove_current w of
        (Inl x, w1) \<Rightarrow> (Inl x, w1)
      | (Inr r, w1) \<Rightarrow>
          (case run_qops ops w1 of
             (Inl x, w2) \<Rightarrow> (Inl x, w2)
           | (Inr out, w2) \<Rightarrow> (Inr (r # out), w2)))"

fun appended :: "qop list \<Rightarrow> entry list" where
  "appended [] = []"
| "appended (Append title filepath duration source added_by uuid4 t # ops) =
     generate_entry title filepath duration source added_by uuid4 t # appended ops"
| "appended (PopFront # ops) = appended ops"

text \<open>
  The FIFO queue of the specification, on a plain list: \<open>append\<close> puts the new entry at the
  back, \<open>pop_front\<close> removes the front entry and returns it, or returns none on an empty
  queue. \<open>fifo_spec ops q\<close> gives what the pops return and the queue that is left.
\<close>

fun fifo_spec :: "qop list \<Rightarrow> entry list \<Rightarrow> entry option list \<times> entry list" where
  "fifo_spec [] q = ([], q)"
| "fifo_spec (Append title filepath duration source added_by uuid4 t # ops) q =
     fifo_spec ops (q @ [generate_entry title filepath duration source added_by uuid4 t])"
| "fifo_spec (PopFront # ops) [] =
     (case fifo_spec ops [] of (out, q') \<Rightarrow> (None # out, q'))"
| "fifo_spec (PopFront # ops) (e # rest) =
     (case fifo_spec ops rest of (out, q') \<Rightarrow> (Some e # out, q'))"

text \<open>The entries among the results of the pops, and entries that carry a title.\<close>

fun somes :: "'a option list \<Rightarrow> 'a list" where
  "somes [] = []"
| "somes (None # xs) = somes xs"
| "somes (Some x # xs) = x # somes xs"

definition has_title :: "entry \<Rightarrow> bool" where
  "has_title e = (map_of e ''title'' \<noteq> None)"

text \<open>The applications of the handler of a kind in a trace. Every handler logs when it is
  entered: \<^verbatim>\<open>_handle_skip\<close>, \<^verbatim>\<open>_handle_stop\<close> and \<^verbatim>\<open>_handle_reload\<close> as their first
  statement, \<^verbatim>\<open>_handle_pause\<close> and \<^verbatim>\<open>_handle_resume\<close> in either branch of their first
  test. These lines are logged nowhere else.\<close>

fun handler_line :: "string \<Rightarrow> event \<Rightarrow> bool" where
  "handler_line k (Log lv m) =
     (lv = Info \<and>
      ((k = ''pause'' \<and> (m = ''Already paused. Ignoring.'' \<or> m = ''Playback paused''))
       \<or> (k = ''resume'' \<and> (m = ''Already playing. Ignoring resume.'' \<or> m = ''Playback resumed''))
       \<or> (k = ''skip'' \<and> m = ''Skip command issued'')
       \<or> (k = ''stop'' \<and> m = ''Playback stopped'')
       \<or> (k = ''reload'' \<and> m = ''Reloading configuration'')))"
| "handler_line k _ = False"

definition count_applied :: "string \<Rightarrow> event list \<Rightarrow> nat" where
  "count_applied k es = length (filter (handler_line k) es)"

definition applied :: "string \<Rightarrow> controller \<times> world \<Rightarrow> nat" where
  "applied k s = count_applied k (trace (snd s))"

text \<open>The events of \<^verbatim>\<open>load_playlist\<close> and of \<^verbatim>\<open>save_playlist\<close> in a given world.\<close>

definition load_events :: "world \<Rightarrow> event list" where
  "load_events w =
     (case playlist w of
        None \<Rightarrow> []
      | Some d \<Rightarrow>
          [OpenFile PlaylistFile ModeR, Acquire PlaylistFile, Log Debug ''Lock acquired'',
           ReadDoc PlaylistFile, Release PlaylistFile, Log Debug ''Lock released'']
          @ (case d of Malformed _ \<Rightarrow> [Log Error ''Failed to load playlist''] | Parsed _ \<Rightarrow> []))"

definition save_events :: "world \<Rightarrow> event list" where
  "save_events w =
     (if playlist w = None then [Touch PlaylistFile, Log Debug ''Created missing file''] else [])
     @ [OpenFile PlaylistFile ModeW, Acquire PlaylistFile, Log Debug ''Lock acquired'',
        WriteDoc PlaylistFile, Release PlaylistFile, Log Debug ''Lock released'',
        Log Info ''JSON written safely'', Log Debug ''Playlist saved successfully.'']"




text \<open>The number of dispatches of a kind recorded so far in a controller state; payloads
  that are objects; and a control document that is an object with one entry per kind, all
  payloads objects, in which kind \<open>k\<close> carries the request id \<open>r\<close>.\<close>

definition dispatched :: "string \<Rightarrow> controller \<times> world \<Rightarrow> nat" where
  "dispatched k s = count_received k (trace (snd s))"

fun is_pdict :: "payload \<Rightarrow> bool" where
  "is_pdict (PDict d) = True"
| "is_pdict (PVal v) = False"

fun carries :: "string \<Rightarrow> jval \<Rightarrow> control_doc doc option \<Rightarrow> bool" where
  "carries k r (Some (Parsed (CtlDict items))) =
     (distinct (map fst items) \<and> list_all is_pdict (map snd items)
      \<and> (case map_of items k of Some (PDict pl) \<Rightarrow> pyget pl ''id'' = r | _ \<Rightarrow> False))"
| "carries k r _ = False"

text \<open>The restart counter of a worker as \<^verbatim>\<open>monitor\<close> reads it
  (\<^verbatim>\<open>restart_counters.get(name, 0)\<close>), and the progress of the supervisor from one state to
  a later one with respect to a worker: the trace is extended, every thread start in the
  extension follows a back-off sleep, the counter grows by at least the number of starts of
  the worker and never beyond the ceiling (or its earlier value).\<close>

definition attempts_of :: "string \<Rightarrow> supervisor \<Rightarrow> nat" where
  "attempts_of name s = (case map_of (restart_counters s) name of None \<Rightarrow> 0 | Some n \<Rightarrow> n)"

definition steps_to :: "string \<Rightarrow> supervisor \<Rightarrow> supervisor \<Rightarrow> bool" where
  "steps_to name s s' =
     (\<exists>es. strace s' = strace s @ es
         \<and> (\<forall>p. spawns_follow p es)
         \<and> attempts_of name s + count_spawned name es \<le> attempts_of name s'
         \<and> attempts_of name s' \<le> max (attempts_of name s) MAX_RESTART_ATTEMPTS)"

section \<open>Basic facts\<close>

lemma py_eq_refl [simp]: "py_eq v v"
  by (cases v) auto

lemma py_eq_JStr [simp]: "py_eq v (JStr s) = (v = JStr s)"
  by (cases v) auto

lemma new_events_append [simp]: "trace w' = trace w @ es \<Longrightarrow> new_events w w' = es"
  by (simp add: new_events_def)

lemma stored_emit [simp]: "stored (emit es w) = stored w"
  by (simp add: stored_def emit_def)

lemma trace_emit [simp]: "trace (emit es w) = trace w @ es"
  by (simp add: emit_def)

lemma docs_emit [simp]:
  "playlist (emit es w) = playlist w"
  "now_playing (emit es w) = now_playing w"
  "control (emit es w) = control w"
  by (simp_all add: emit_def)

lemma stored_playlist_upd [simp]: "stored (w\<lparr>playlist := Some (Parsed xs)\<rparr>) = xs"
  by (simp add: stored_def)

lemma events_emit [simp]:
  "save_events (emit es w) = save_events w"
  "load_events (emit es w) = load_events w"
  "save_events (w\<lparr>trace := tr\<rparr>) = save_events w"
  "load_events (w\<lparr>trace := tr\<rparr>) = load_events w"
  by (simp_all add: save_events_def load_events_def)

subsection \<open>The queue operations in closed form\<close>

lemma load_playlist_eq:
  "load_playlist w = (stored w, emit (load_events w) w)"
  by (cases "playlist w"; cases "the (playlist w)")
     (simp_all add: load_playlist_def stored_def exists_file_def read_locked_json_playlist_def
        load_events_def locked_file_enter_def locked_file_exit_def emit_def)

lemma save_playlist_eq:
  "save_playlist data w = (emit (save_events w) w)\<lparr>playlist := Some (Parsed data)\<rparr>"
  by (simp add: save_playlist_def write_locked_json_playlist_def locked_file_enter_def
      locked_file_exit_def emit_def save_events_def exists_file_def)

lemma no_write_load_events:
  "WriteDoc PlaylistFile \<notin> set (load_events w)"
  "OpenFile PlaylistFile ModeW \<notin> set (load_events w)"
  by (auto simp: load_events_def split: option.splits doc.splits)

lemma add_to_queue_eq:
  "add_to_queue t f d s a u n w =
     (generate_entry t f d s a u n,
      (emit (load_events w @ save_events w @ [Log Info ''Added to queue'']) w)
        \<lparr>playlist := Some (Parsed (stored w @ [generate_entry t f d s a u n]))\<rparr>)"
  by (simp add: add_to_queue_def load_playlist_eq save_playlist_eq Let_def emit_def)

lemma remove_current_eq:
  "remove_current w =
     (case stored w of
        [] \<Rightarrow> (Inr None, emit (load_events w) w)
      | e # rest \<Rightarrow>
          (case subscript e ''title'' of
             Inl x \<Rightarrow>
               (Inl x, (emit (load_events w @ save_events w) w)\<lparr>playlist := Some (Parsed rest)\<rparr>)
           | Inr _ \<Rightarrow>
               (Inr (Some e),
                (emit (load_events w @ save_events w @ [Log Info ''Removed current item'']) w)
                  \<lparr>playlist := Some (Parsed rest)\<rparr>)))"
  by (simp add: remove_current_def load_playlist_eq save_playlist_eq emit_def Let_def
      split: list.splits sum.splits)

lemma pop_front_eq:
  "pop_front w =
     (case stored w of
        [] \<Rightarrow> (None, emit (load_events w) w)
      | e # rest \<Rightarrow>
          (Some e, (emit (load_events w @ save_events w) w)\<lparr>playlist := Some (Parsed rest)\<rparr>))"
  by (simp add: pop_front_def load_playlist_eq save_playlist_eq emit_def split: list.splits)

lemma subscript_title: "has_title e \<Longrightarrow> \<exists>v. subscript e ''title'' = Inr v"
  by (auto simp: has_title_def subscript_def)

lemma has_title_generate_entry [simp]: "has_title (generate_entry t f d s a u n)"
  by (simp add: has_title_def generate_entry_def)

lemma fifo_spec_order:
  "somes (fst (fifo_spec ops q)) @ snd (fifo_spec ops q) = q @ appended ops"
proof (induction ops arbitrary: q)
  case Nil
  then show ?case by simp
next
  case (Cons op ops)
  show ?case
  proof (cases op)
    case (Append t f d s a u n)
    then show ?thesis using Cons.IH[of "q @ [generate_entry t f d s a u n]"] by simp
  next
    case PopFront
    show ?thesis
    proof (cases q)
      case Nil
      then show ?thesis using Cons.IH[of "[]"] PopFront by (simp add: split_beta)
    next
      case (Cons e rest)
      then show ?thesis using Cons.IH[of rest] PopFront by (simp add: split_beta)
    qed
  qed
qed

lemma remove_filter_absent:
  "\<forall>q \<in> set qs. \<exists>v. map_of q ''id'' = Some v \<and> v \<noteq> JStr entry_id \<Longrightarrow>
   remove_filter qs entry_id = Inr qs"
  by (induction qs) (auto simp: subscript_def)

section \<open>Queue Store properties\<close>

text \<open>
  Claim C8. For every store and every id that no entry of the store carries (each entry
  has an id, as every QueueEntry does, and it differs from the given one),
  \<^verbatim>\<open>remove_by_id\<close> returns false and leaves the persisted store unchanged: the document is
  the same, the trace is only extended, and the added events contain neither a write of
  the queue document nor an opening of it for writing.
\<close>

theorem remove_by_id_absent:
  assumes "\<forall>q \<in> set (stored w). \<exists>v. map_of q ''id'' = Some v \<and> v \<noteq> JStr entry_id"
  shows "fst (remove_by_id entry_id w) = Inr False
       \<and> playlist (snd (remove_by_id entry_id w)) = playlist w
       \<and> stored (snd (remove_by_id entry_id w)) = stored w
       \<and> take (length (trace w)) (trace (snd (remove_by_id entry_id w))) = trace w
       \<and> WriteDoc PlaylistFile \<notin> set (new_events w (snd (remove_by_id entry_id w)))
       \<and> OpenFile PlaylistFile ModeW \<notin> set (new_events w (snd (remove_by_id entry_id w)))"
proof -
  have rf: "remove_filter (stored w) entry_id = Inr (stored w)"
    using assms by (rule remove_filter_absent)
  have R: "remove_by_id entry_id w =
           (Inr False, emit (load_events w @ [Log Warning ''Entry ID not found for removal'']) w)"
    by (simp add: remove_by_id_def load_playlist_eq rf emit_def)
  show ?thesis
    by (simp add: R no_write_load_events stored_def)
qed

theorem remove_by_id_absent_witness:
  "map (\<lambda>q. map_of q ''id'')
      (stored \<lparr>playlist = Some (Parsed [[(''id'', JStr ''a'')], [(''id'', JStr ''c'')]]),
               now_playing = None, control = None, trace = []\<rparr>)
     = [Some (JStr ''a''), Some (JStr ''c'')]
   \<and> fst (remove_by_id ''b''
         \<lparr>playlist = Some (Parsed [[(''id'', JStr ''a'')], [(''id'', JStr ''c'')]]),
          now_playing = None, control = None, trace = []\<rparr>) = Inr False
   \<and> stored (snd (remove_by_id ''b''
         \<lparr>playlist = Some (Parsed [[(''id'', JStr ''a'')], [(''id'', JStr ''c'')]]),
          now_playing = None, control = None, trace = []\<rparr>))
       = [[(''id'', JStr ''a'')], [(''id'', JStr ''c'')]]"
proof -
  let ?w = "\<lparr>playlist = Some (Parsed [[(''id'', JStr ''a'')], [(''id'', JStr ''c'')]]),
             now_playing = None, control = None, trace = []\<rparr>"
  have h: "\<forall>q \<in> set (stored ?w). \<exists>v. map_of q ''id'' = Some v \<and> v \<noteq> JStr ''b''"
    by (simp add: stored_def)
  show ?thesis using h remove_by_id_absent [OF h] by (simp add: stored_def)
qed

text \<open>
  Claim C10. For every empty Queue Store (the document is absent, holds the empty list, or
  does not parse and so reads as empty), \<^verbatim>\<open>remove_current\<close> returns none and performs no
  write: all three documents are as before, the trace is only extended, and the added
  events contain neither a write of the queue document nor an opening of it for writing.
\<close>

theorem remove_current_empty:
  assumes "stored w = []"
  shows "fst (remove_current w) = Inr None
       \<and> playlist (snd (remove_current w)) = playlist w
       \<and> now_playing (snd (remove_current w)) = now_playing w
       \<and> control (snd (remove_current w)) = control w
       \<and> take (length (trace w)) (trace (snd (remove_current w))) = trace w
       \<and> WriteDoc PlaylistFile \<notin> set (new_events w (snd (remove_current w)))
       \<and> OpenFile PlaylistFile ModeW \<notin> set (new_events w (snd (remove_current w)))"
proof -
  have R: "remove_current w = (Inr None, emit (load_events w) w)"
    by (simp add: remove_current_eq assms)
  show ?thesis
    by (simp add: R no_write_load_events)
qed

theorem remove_current_empty_witness:
  "stored \<lparr>playlist = Some (Parsed []), now_playing = Some NPEmpty, control = None, trace = []\<rparr> = []
   \<and> fst (remove_current
            \<lparr>playlist = Some (Parsed []), now_playing = Some NPEmpty, control = None, trace = []\<rparr>)
       = Inr None
   \<and> playlist (snd (remove_current
            \<lparr>playlist = Some (Parsed []), now_playing = Some NPEmpty, control = None, trace = []\<rparr>))
       = Some (Parsed [])"
proof -
  let ?w = "\<lparr>playlist = Some (Parsed []), now_playing = Some NPEmpty, control = None, trace = []\<rparr>"
  have h: "stored ?w = []" by (simp add: stored_def)
  show ?thesis using h remove_current_empty [OF h] by simp
qed

text \<open>
  Claim C6. Take a store whose entries all carry a title (as every QueueEntry does) and any
  sequence of \<^verbatim>\<open>add_to_queue\<close> and \<^verbatim>\<open>remove_current\<close> calls. The run raises nothing, and
  it behaves as the FIFO queue of the specification started on the stored list: each pop
  returns what \<open>pop_front\<close> of the FIFO queue returns (the front entry, or none on an empty
  store), and the store at the end holds the list the FIFO queue is left with. So the
  entries returned by the pops, followed by what the store holds at the end, are what the
  store held at the start followed by the appended entries in the order of their appends.
\<close>

theorem fifo_order:
  assumes "list_all has_title (stored w)"
  shows "fst (run_qops ops w) = Inr (fst (fifo_spec ops (stored w)))
       \<and> stored (snd (run_qops ops w)) = snd (fifo_spec ops (stored w))
       \<and> somes (fst (fifo_spec ops (stored w))) @ stored (snd (run_qops ops w))
           = stored w @ appended ops"
proof -
  have main: "list_all has_title (stored w) \<Longrightarrow>
        fst (run_qops ops w) = Inr (fst (fifo_spec ops (stored w)))
        \<and> stored (snd (run_qops ops w)) = snd (fifo_spec ops (stored w))"
  proof (induction ops arbitrary: w)
    case Nil
    then show ?case by simp
  next
    case (Cons op ops)
    show ?case
    proof (cases op)
      case (Append t f d s a u n)
      let ?w1 = "snd (add_to_queue t f d s a u n w)"
      have st: "stored ?w1 = stored w @ [generate_entry t f d s a u n]"
        by (simp add: add_to_queue_eq)
      have "list_all has_title (stored ?w1)" using Cons.prems st by simp
      then show ?thesis using Cons.IH[of ?w1] st Append by simp
    next
      case PopFront
      show ?thesis
      proof (cases "stored w")
        case Nil
        let ?w1 = "emit (load_events w) w"
        have R: "remove_current w = (Inr None, ?w1)" using Nil by (simp add: remove_current_eq)
        have "list_all has_title (stored ?w1)" using Nil by simp
        then show ?thesis using Cons.IH[of ?w1] R Nil PopFront by (simp add: split_beta)
      next
        case (Cons e rest)
        let ?w1 = "(emit (load_events w @ save_events w @ [Log Info ''Removed current item'']) w)
                     \<lparr>playlist := Some (Parsed rest)\<rparr>"
        have "has_title e" using Cons.prems Cons by simp
        then obtain v where "subscript e ''title'' = Inr v" using subscript_title by blast
        then have R: "remove_current w = (Inr (Some e), ?w1)"
          using Cons by (simp add: remove_current_eq)
        have "list_all has_title (stored ?w1)" using Cons.prems Cons by simp
        then show ?thesis using Cons.IH[of ?w1] R Cons PopFront by (simp add: split_beta)
      qed
    qed
  qed
  show ?thesis using main[OF assms] fifo_spec_order[of ops "stored w"] by simp
qed

theorem fifo_order_witness:
  "fst (run_qops
          [Append ''B'' ''/movies/b.mp4'' 7 ''upload'' ''ann'' ''id-b'' 1700000001,
           PopFront, PopFront, PopFront]
          \<lparr>playlist = Some (Parsed [[(''id'', JStr ''id-a''), (''title'', JStr ''A'')]]),
           now_playing = None, control = None, trace = []\<rparr>)
     = Inr [Some [(''id'', JStr ''id-a''), (''title'', JStr ''A'')],
            Some (generate_entry ''B'' ''/movies/b.mp4'' 7 ''upload'' ''ann'' ''id-b'' 1700000001),
            None]
   \<and> stored (snd (run_qops
          [Append ''B'' ''/movies/b.mp4'' 7 ''upload'' ''ann'' ''id-b'' 1700000001,
           PopFront, PopFront, PopFront]
          \<lparr>playlist = Some (Parsed [[(''id'', JStr ''id-a''), (''title'', JStr ''A'')]]),
           now_playing = None, control = None, trace = []\<rparr>)) = []"
proof -
  let ?w = "\<lparr>playlist = Some (Parsed [[(''id'', JStr ''id-a''), (''title'', JStr ''A'')]]),
           now_playing = None, control = None, trace = []\<rparr>"
  have h: "list_all has_title (stored ?w)" by (simp add: stored_def has_title_def)
  have s: "stored ?w = [[(''id'', JStr ''id-a''), (''title'', JStr ''A'')]]" by (simp add: stored_def)
  show ?thesis
    using fifo_order [OF h, of "[Append ''B'' ''/movies/b.mp4'' 7 ''upload'' ''ann'' ''id-b'' 1700000001,
           PopFront, PopFront, PopFront]"]
    by (simp add: s)
qed

section \<open>Reads of a malformed store\<close>

lemma stored_malformed [simp]: "stored (w\<lparr>playlist := Some (Malformed x)\<rparr>) = []"
  by (simp add: stored_def)

lemma load_events_malformed [simp]:
  "load_events (w\<lparr>playlist := Some (Malformed x)\<rparr>) =
     [OpenFile PlaylistFile ModeR, Acquire PlaylistFile, Log Debug ''Lock acquired'',
      ReadDoc PlaylistFile, Release PlaylistFile, Log Debug ''Lock released'',
      Log Error ''Failed to load playlist'']"
  by (simp add: load_events_def)

text \<open>The readers of \<^verbatim>\<open>queue.py\<close> go through \<^verbatim>\<open>load_playlist\<close>, which catches every
  exception: whatever \<^verbatim>\<open>json.load\<close> raises on the document, they return the result of an
  empty store, log the fault and leave the document as it is.\<close>

lemma queue_reads_of_malformed:
  "fst (load_playlist (w\<lparr>playlist := Some (Malformed x)\<rparr>)) = []
   \<and> fst (get_queue (w\<lparr>playlist := Some (Malformed x)\<rparr>)) = []
   \<and> fst (get_next_item (w\<lparr>playlist := Some (Malformed x)\<rparr>)) = None
   \<and> fst (peek_current (w\<lparr>playlist := Some (Malformed x)\<rparr>)) = None
   \<and> fst (is_empty (w\<lparr>playlist := Some (Malformed x)\<rparr>)) = True
   \<and> fst (get_by_id entry_id (w\<lparr>playlist := Some (Malformed x)\<rparr>)) = None
   \<and> fst (get_total_duration to_int (w\<lparr>playlist := Some (Malformed x)\<rparr>)) = Inr 0
   \<and> Log Error ''Failed to load playlist''
        \<in> set (new_events (w\<lparr>playlist := Some (Malformed x)\<rparr>)
                 (snd (load_playlist (w\<lparr>playlist := Some (Malformed x)\<rparr>))))
   \<and> playlist (snd (load_playlist (w\<lparr>playlist := Some (Malformed x)\<rparr>))) = Some (Malformed x)"
  by (simp add: get_queue_def get_next_item_def peek_current_def is_empty_def get_by_id_def
      get_total_duration_def load_playlist_eq)

text \<open>\<^verbatim>\<open>MoviePlayer.get_next_video\<close> does the same on a text that is not JSON.\<close>

lemma get_next_video_not_json:
  "get_next_video (w\<lparr>playlist := Some (Malformed JSONDecodeError)\<rparr>) =
     (Inr (None, Some []),
      emit [Acquire PlaylistFile, OpenFile PlaylistFile ModeR, ReadDoc PlaylistFile,
            Log Error ''Playlist file is corrupted.'', Release PlaylistFile]
        (w\<lparr>playlist := Some (Malformed JSONDecodeError)\<rparr>))"
  by (simp add: get_next_video_def FileLock_enter_def FileLock_exit_def emit_def)

text \<open>
  Claim C7. The claim asks that every read operation treats an unparseable queue document
  as an empty store and lets no exception out to its caller. On a queue file whose bytes
  are not valid UTF-8, \<^verbatim>\<open>json.load\<close> raises \<^verbatim>\<open>UnicodeDecodeError\<close>;
  \<^verbatim>\<open>MoviePlayer.get_next_video\<close> catches \<^verbatim>\<open>json.JSONDecodeError\<close> only, so the exception
  leaves it and ends \<^verbatim>\<open>play_loop\<close>, which stays ended. On the same file \<^verbatim>\<open>load_playlist\<close>
  returns the empty list.
\<close>

theorem get_next_video_raises_on_undecodable:
  "fst (get_next_video (w\<lparr>playlist := Some (Malformed UnicodeDecodeError)\<rparr>))
     = Inl UnicodeDecodeError
   \<and> fst (play_loop_step ob (Idle, w\<lparr>playlist := Some (Malformed UnicodeDecodeError)\<rparr>))
     = Crashed UnicodeDecodeError
   \<and> fst (play_loop_step ob'
            (play_loop_step ob (Idle, w\<lparr>playlist := Some (Malformed UnicodeDecodeError)\<rparr>)))
     = Crashed UnicodeDecodeError
   \<and> fst (load_playlist (w\<lparr>playlist := Some (Malformed UnicodeDecodeError)\<rparr>)) = []"
  by (simp add: get_next_video_def FileLock_enter_def FileLock_exit_def emit_def
      play_loop_step_def load_playlist_eq)

section \<open>Now-Playing: the plain shape\<close>

text \<open>
  Claim C3. The claim asks that a now-playing document of the plain shape
  \<^verbatim>\<open><path>|<unix-seconds>\<close> is read as a record with that path and timestamp. What
  \<^verbatim>\<open>get_now_playing\<close> does on every such document: \<^verbatim>\<open>json.load\<close> fails, the failure is
  caught and logged, and the result is none.
\<close>

theorem legacy_now_playing_reads_none:
  "fst (get_now_playing (w\<lparr>now_playing := Some (NPPlain p t)\<rparr>)) = None
   \<and> Log Error ''Failed to parse now_playing.txt''
        \<in> set (new_events (w\<lparr>now_playing := Some (NPPlain p t)\<rparr>)
                 (snd (get_now_playing (w\<lparr>now_playing := Some (NPPlain p t)\<rparr>))))"
  by (simp add: get_now_playing_def exists_file_def)

text \<open>The document that \<^verbatim>\<open>MoviePlayer.update_now_playing\<close> writes for a film is one of
  them.\<close>

lemma engine_now_playing_unreadable:
  "fst (get_now_playing
          (snd (update_now_playing [(''file_path'', JStr ''/movies/a.mp4''), (''title'', JStr ''a'')]
                  1700000000
                  \<lparr>playlist = Some (Parsed []), now_playing = Some NPEmpty, control = None,
                   trace = []\<rparr>)))
   = None"
  by (simp add: get_now_playing_def exists_file_def update_now_playing_def subscript_def
      FileLock_enter_def FileLock_exit_def emit_def)

section \<open>Lock holds of the queue mutators\<close>
















section \<open>The playback engine and the persisted queue\<close>













lemma clear_now_playing_playlist [simp]: "playlist (clear_now_playing w) = playlist w"
  by (simp add: clear_now_playing_def FileLock_exit_def FileLock_enter_def emit_def)

lemma stored_write_updated [simp]: "stored (write_updated_playlist u w) = u"
  by (simp add: write_updated_playlist_def FileLock_exit_def FileLock_enter_def emit_def stored_def)










section \<open>The control loop: deduplication\<close>

lemma count_received_append [simp]:
  "count_received k (a @ b) = count_received k a + count_received k b"
  by (simp add: count_received_def)

lemma count_received_Nil [simp]: "count_received k [] = 0"
  by (simp add: count_received_def)

lemma count_received_Cons_Log [simp]:
  "count_received k (Log l m # es) = count_received k es"
  "count_received k (Sleep n # es) = count_received k es"
  "count_received k (Acquire f # es) = count_received k es"
  "count_received k (Release f # es) = count_received k es"
  "count_received k (OpenFile f md # es) = count_received k es"
  "count_received k (ReadDoc f # es) = count_received k es"
  "count_received k (WriteDoc f # es) = count_received k es"
  "count_received k (Touch f # es) = count_received k es"
  "count_received k (Received c u # es) = (if c = k then 1 else 0) + count_received k es"
  by (simp_all add: count_received_def)

lemma count_applied_append [simp]:
  "count_applied k (a @ b) = count_applied k a + count_applied k b"
  by (simp add: count_applied_def)

lemma count_applied_Nil [simp]: "count_applied k [] = 0"
  by (simp add: count_applied_def)

lemma count_applied_Cons [simp]:
  "count_applied k (Log l m # es) = (if handler_line k (Log l m) then 1 else 0) + count_applied k es"
  "count_applied k (Sleep n # es) = count_applied k es"
  "count_applied k (Acquire f # es) = count_applied k es"
  "count_applied k (Release f # es) = count_applied k es"
  "count_applied k (OpenFile f md # es) = count_applied k es"
  "count_applied k (ReadDoc f # es) = count_applied k es"
  "count_applied k (WriteDoc f # es) = count_applied k es"
  "count_applied k (Touch f # es) = count_applied k es"
  "count_applied k (Received c u # es) = count_applied k es"
  by (simp_all add: count_applied_def)

lemma ca_load_events [simp]: "count_applied k (load_events w) = 0"
  by (simp add: load_events_def split: option.splits doc.splits)

lemma ca_save_events [simp]: "count_applied k (save_events w) = 0"
  by (simp add: save_events_def)

lemma ca_clear [simp]:
  "count_applied k (trace (clear_now_playing w)) = count_applied k (trace w)"
  by (simp add: clear_now_playing_def FileLock_enter_def FileLock_exit_def)

lemma ca_set_np [simp]:
  "count_applied k (trace (set_now_playing e t w)) = count_applied k (trace w)"
  by (simp add: set_now_playing_def Let_def split: sum.splits)

lemma ca_pop_front [simp]:
  "count_applied k (trace (snd (pop_front w))) = count_applied k (trace w)"
  by (simp add: pop_front_eq split: list.splits)

lemma cr_load_events [simp]: "count_received k (load_events w) = 0"
  by (simp add: load_events_def split: option.splits doc.splits)

lemma cr_save_events [simp]: "count_received k (save_events w) = 0"
  by (simp add: save_events_def)

lemma cr_clear [simp]:
  "count_received k (trace (clear_now_playing w)) = count_received k (trace w)"
  by (simp add: clear_now_playing_def FileLock_enter_def FileLock_exit_def)

lemma stored_clear [simp]: "stored (clear_now_playing w) = stored w"
  by (simp add: clear_now_playing_def FileLock_enter_def FileLock_exit_def stored_def emit_def)

lemma cr_set_np [simp]:
  "count_received k (trace (set_now_playing e t w)) = count_received k (trace w)"
  by (simp add: set_now_playing_def Let_def split: sum.splits)

lemma stored_set_np [simp]: "stored (set_now_playing e t w) = stored w"
  by (simp add: set_now_playing_def Let_def stored_def emit_def split: sum.splits)

lemma playlist_set_np [simp]: "playlist (set_now_playing e t w) = playlist w"
  by (simp add: set_now_playing_def Let_def emit_def split: sum.splits)

lemma cr_pop_front [simp]:
  "count_received k (trace (snd (pop_front w))) = count_received k (trace w)"
  by (simp add: pop_front_eq split: list.splits)

lemma get_next_item_eq:
  "get_next_item w = (case stored w of [] \<Rightarrow> None | e # _ \<Rightarrow> Some e, emit (load_events w) w)"
  by (simp add: get_next_item_def load_playlist_eq)

lemma stop_stream_eq:
  "stop_stream (c, w) =
     (c\<lparr>emitter := None\<rparr>, case emitter c of None \<Rightarrow> w | Some _ \<Rightarrow> clear_now_playing w)"
  by (simp add: stop_stream_def split: option.splits)

lemma dispatched_pair [simp]: "dispatched k (c, w) = count_received k (trace w)"
  by (simp add: dispatched_def)

lemma applied_pair [simp]: "applied k (c, w) = count_applied k (trace w)"
  by (simp add: applied_def)

lemma run_once_facts:
  "dispatched k (run_once ev s) = dispatched k s"
  "applied k (run_once ev s) = applied k s"
  "last_request_ids (fst (run_once ev s)) = last_request_ids (fst s)"
proof -
  obtain c w where s: "s = (c, w)" by (cases s)
  obtain r w1 where P: "pop_front w = (r, w1)" by (cases "pop_front w")
  have t: "count_received k (trace w1) = count_received k (trace w)"
    "count_applied k (trace w1) = count_applied k (trace w)"
    using cr_pop_front[of k w] ca_pop_front[of k w] P by simp_all
  show "dispatched k (run_once ev s) = dispatched k s"
    using t by (cases r) (simp_all add: s run_once_def P)
  show "applied k (run_once ev s) = applied k s"
    using t by (cases r) (simp_all add: s run_once_def P)
  show "last_request_ids (fst (run_once ev s)) = last_request_ids (fst s)"
    by (cases r) (simp_all add: s run_once_def P)
qed

lemma stop_stream_facts:
  "dispatched k (stop_stream s) = dispatched k s"
  "applied k (stop_stream s) = applied k s"
  "last_request_ids (fst (stop_stream s)) = last_request_ids (fst s)"
  by (cases s; simp add: stop_stream_eq split: option.splits)+

text \<open>Each handler logs its entry once, and no handler logs the entry of another.\<close>

lemma handle_pause_facts:
  "dispatched k (handle_pause u s) = dispatched k s"
  "applied k (handle_pause u s) = applied k s + (if k = ''pause'' then 1 else 0)"
  "last_request_ids (fst (handle_pause u s)) = last_request_ids (fst s)"
  by (cases s; simp add: handle_pause_def stop_stream_facts)+

lemma handle_resume_facts:
  "dispatched k (handle_resume ev u s) = dispatched k s"
  "applied k (handle_resume ev u s) = applied k s + (if k = ''resume'' then 1 else 0)"
  "last_request_ids (fst (handle_resume ev u s)) = last_request_ids (fst s)"
  by (cases s; simp add: handle_resume_def run_once_facts)+

lemma handle_stop_facts:
  "dispatched k (handle_stop u s) = dispatched k s"
  "applied k (handle_stop u s) = applied k s + (if k = ''stop'' then 1 else 0)"
  "last_request_ids (fst (handle_stop u s)) = last_request_ids (fst s)"
  by (cases s; simp add: handle_stop_def stop_stream_facts)+

lemma handle_reload_facts:
  "dispatched k (handle_reload u s) = dispatched k s"
  "applied k (handle_reload u s) = applied k s + (if k = ''reload'' then 1 else 0)"
  "last_request_ids (fst (handle_reload u s)) = last_request_ids (fst s)"
  by (cases s; simp add: handle_reload_def)+

lemma handle_skip_facts:
  "dispatched k (handle_skip ev u s) = dispatched k s"
  "applied k (handle_skip ev u s) = applied k s + (if k = ''skip'' then 1 else 0)"
  "last_request_ids (fst (handle_skip ev u s)) = last_request_ids (fst s)"
  by (cases s;
      simp add: handle_skip_def stop_stream_eq get_next_item_eq run_once_facts
         split: option.splits list.splits)+

lemma apply_command_facts:
  "dispatched k (apply_command ev cmd u s) = dispatched k s"
  "applied k (apply_command ev cmd u s)
     = applied k s + (if cmd = k \<and> k \<in> set VALID_COMMANDS then 1 else 0)"
  "last_request_ids (fst (apply_command ev cmd u s)) = last_request_ids (fst s)"
  by (cases s; simp add: apply_command_def handle_pause_facts handle_resume_facts
        handle_skip_facts handle_stop_facts handle_reload_facts VALID_COMMANDS_def; fastforce)+

lemma pyget_update_other:
  "command \<noteq> k \<Longrightarrow> pyget (AList.update command v al) k = pyget al k"
  by (simp add: pyget_def update_conv')

lemma pyget_update_same: "pyget (AList.update k v al) k = v"
  by (simp add: pyget_def update_conv')

text \<open>An item of another kind leaves the counts and the recorded id of kind \<open>k\<close> alone.\<close>

lemma process_item_other:
  assumes "fst item \<noteq> k"
  shows "dispatched k (snd (process_item ev item s)) = dispatched k s"
    and "applied k (snd (process_item ev item s)) = applied k s"
    and "pyget (last_request_ids (fst (snd (process_item ev item s)))) k
         = pyget (last_request_ids (fst s)) k"
proof -
  obtain command pl where it: "item = (command, pl)" by (cases item)
  obtain c w where s: "s = (c, w)" by (cases s)
  have ne: "command \<noteq> k" using assms it by simp
  show "dispatched k (snd (process_item ev item s)) = dispatched k s"
    using ne unfolding it s
    by (cases pl) (simp_all add: process_item_def Let_def apply_command_facts)
  show "applied k (snd (process_item ev item s)) = applied k s"
    using ne unfolding it s
    by (cases pl) (simp_all add: process_item_def Let_def apply_command_facts)
  show "pyget (last_request_ids (fst (snd (process_item ev item s)))) k
         = pyget (last_request_ids (fst s)) k"
    using ne unfolding it s
    by (cases pl)
       (simp_all add: process_item_def Let_def apply_command_facts pyget_update_other)
qed

text \<open>An item whose payload is an object does not raise.\<close>

lemma process_item_pdict:
  "is_pdict (snd item) \<Longrightarrow> fst (process_item ev item s) = None"
  by (cases item; cases "snd item") (simp_all add: process_item_def Let_def)

text \<open>The item of kind \<open>k\<close>: dispatched and applied when its id is fresh, and recorded.\<close>

lemma process_item_same:
  assumes "k \<in> set VALID_COMMANDS" and "py_truthy (pyget pl ''id'')"
  shows "dispatched k (snd (process_item ev (k, PDict pl) s))
         = dispatched k s + (if is_duplicate (fst s) k (pyget pl ''id'') then 0 else 1)"
    and "applied k (snd (process_item ev (k, PDict pl) s))
         = applied k s + (if is_duplicate (fst s) k (pyget pl ''id'') then 0 else 1)"
    and "is_duplicate (fst (snd (process_item ev (k, PDict pl) s))) k (pyget pl ''id'')"
    and "\<not> is_duplicate (fst s) k (pyget pl ''id'') \<Longrightarrow>
         pyget (last_request_ids (fst (snd (process_item ev (k, PDict pl) s)))) k = pyget pl ''id''"
proof -
  obtain c w where s: "s = (c, w)" by (cases s)
  show "dispatched k (snd (process_item ev (k, PDict pl) s))
         = dispatched k s + (if is_duplicate (fst s) k (pyget pl ''id'') then 0 else 1)"
    using assms unfolding s
    by (simp add: process_item_def Let_def apply_command_facts)
  show "applied k (snd (process_item ev (k, PDict pl) s))
         = applied k s + (if is_duplicate (fst s) k (pyget pl ''id'') then 0 else 1)"
    using assms unfolding s
    by (simp add: process_item_def Let_def apply_command_facts)
  show "is_duplicate (fst (snd (process_item ev (k, PDict pl) s))) k (pyget pl ''id'')"
    using assms unfolding s
    by (simp add: process_item_def Let_def is_duplicate_def apply_command_facts pyget_update_same)
  show "\<not> is_duplicate (fst s) k (pyget pl ''id'') \<Longrightarrow>
         pyget (last_request_ids (fst (snd (process_item ev (k, PDict pl) s)))) k = pyget pl ''id''"
    using assms unfolding s
    by (simp add: process_item_def Let_def apply_command_facts pyget_update_same)
qed

lemma process_items_other:
  assumes "k \<notin> fst ` set items"
  shows "dispatched k (snd (process_items ev items s)) = dispatched k s
       \<and> applied k (snd (process_items ev items s)) = applied k s
       \<and> pyget (last_request_ids (fst (snd (process_items ev items s)))) k
         = pyget (last_request_ids (fst s)) k"
  using assms
proof (induction items arbitrary: s)
  case Nil
  then show ?case by simp
next
  case (Cons item items)
  obtain r s1 where P: "process_item ev item s = (r, s1)" by (cases "process_item ev item s")
  have ne: "fst item \<noteq> k" using Cons.prems by auto
  have a: "dispatched k s1 = dispatched k s"
    using process_item_other(1)[OF ne, of ev s] P by simp
  have a': "applied k s1 = applied k s"
    using process_item_other(2)[OF ne, of ev s] P by simp
  have b: "pyget (last_request_ids (fst s1)) k = pyget (last_request_ids (fst s)) k"
    using process_item_other(3)[OF ne, of ev s] P by simp
  have rest: "k \<notin> fst ` set items" using Cons.prems by auto
  show ?case
  proof (cases r)
    case None
    then show ?thesis using Cons.IH[OF rest, of s1] a a' b P by simp
  next
    case (Some x)
    then show ?thesis using a a' b P by simp
  qed
qed

lemma process_items_pdict:
  "list_all is_pdict (map snd items) \<Longrightarrow> fst (process_items ev items s) = None"
proof (induction items arbitrary: s)
  case Nil
  then show ?case by simp
next
  case (Cons item items)
  obtain r s1 where P: "process_item ev item s = (r, s1)" by (cases "process_item ev item s")
  have "r = None" using process_item_pdict[of item ev s] Cons.prems P by simp
  then show ?case using Cons P by simp
qed

lemma process_items_same:
  assumes "distinct (map fst items)" and "map_of items k = Some (PDict pl)"
    and "k \<in> set VALID_COMMANDS" and "py_truthy (pyget pl ''id'')"
    and "list_all is_pdict (map snd items)"
  shows "dispatched k (snd (process_items ev items s))
         = dispatched k s + (if is_duplicate (fst s) k (pyget pl ''id'') then 0 else 1)
       \<and> applied k (snd (process_items ev items s))
         = applied k s + (if is_duplicate (fst s) k (pyget pl ''id'') then 0 else 1)
       \<and> is_duplicate (fst (snd (process_items ev items s))) k (pyget pl ''id'')
       \<and> (\<not> is_duplicate (fst s) k (pyget pl ''id'') \<longrightarrow>
            pyget (last_request_ids (fst (snd (process_items ev items s)))) k = pyget pl ''id'')"
  using assms(1,2,5)
proof (induction items arbitrary: s)
  case Nil
  then show ?case by simp
next
  case (Cons item items)
  obtain r s1 where P: "process_item ev item s = (r, s1)" by (cases "process_item ev item s")
  have rN: "r = None" using process_item_pdict[of item ev s] Cons.prems(3) P by simp
  show ?case
  proof (cases "fst item = k")
    case True
    then have item: "item = (k, PDict pl)" using Cons.prems(2) by (cases item) simp
    have rest: "k \<notin> fst ` set items" using Cons.prems(1) True by auto
    have a: "dispatched k s1
             = dispatched k s + (if is_duplicate (fst s) k (pyget pl ''id'') then 0 else 1)"
      using process_item_same(1)[OF assms(3,4), of ev s] P item by simp
    have a': "applied k s1
             = applied k s + (if is_duplicate (fst s) k (pyget pl ''id'') then 0 else 1)"
      using process_item_same(2)[OF assms(3,4), of ev s] P item by simp
    have b: "is_duplicate (fst s1) k (pyget pl ''id'')"
      using process_item_same(3)[OF assms(3,4), of ev s] P item by simp
    have c: "\<not> is_duplicate (fst s) k (pyget pl ''id'') \<Longrightarrow>
             pyget (last_request_ids (fst s1)) k = pyget pl ''id''"
      using process_item_same(4)[OF assms(3,4), of s ev] P item by simp
    show ?thesis
      using process_items_other[OF rest, of ev s1] a a' b c P rN
      by (simp add: is_duplicate_def)
  next
    case False
    then have m: "map_of items k = Some (PDict pl)" using Cons.prems(2) by (cases item) auto
    have d: "distinct (map fst items)" using Cons.prems(1) by simp
    have l: "list_all is_pdict (map snd items)" using Cons.prems(3) by simp
    have a: "dispatched k s1 = dispatched k s"
      using process_item_other(1)[OF False, of ev s] P by simp
    have a': "applied k s1 = applied k s"
      using process_item_other(2)[OF False, of ev s] P by simp
    have b: "is_duplicate (fst s1) k (pyget pl ''id'') = is_duplicate (fst s) k (pyget pl ''id'')"
      using process_item_other(3)[OF False, of ev s] P by (simp add: is_duplicate_def)
    show ?thesis using Cons.IH[OF d m l, of s1] a a' b P rN by simp
  qed
qed

lemma read_control_eq:
  "control w = Some (Parsed d) \<Longrightarrow>
   read_locked_json_control w =
     (Inr d, emit [OpenFile ControlFile ModeR, Acquire ControlFile, Log Debug ''Lock acquired'',
                   ReadDoc ControlFile, Release ControlFile, Log Debug ''Lock released''] w)"
  by (simp add: read_locked_json_control_def locked_file_enter_def locked_file_exit_def emit_def
      exists_file_def)

lemma check_eq:
  "control w = Some (Parsed (CtlDict items)) \<Longrightarrow>
   check_for_new_command ev (c, w) =
     process_items ev items
       (c, emit [OpenFile ControlFile ModeR, Acquire ControlFile, Log Debug ''Lock acquired'',
                 ReadDoc ControlFile, Release ControlFile, Log Debug ''Lock released''] w)"
  by (simp add: check_for_new_command_def read_control_eq exists_file_def)

lemma carries_items:
  assumes "carries k r d"
  obtains items pl where "d = Some (Parsed (CtlDict items))"
    and "distinct (map fst items)" and "list_all is_pdict (map snd items)"
    and "map_of items k = Some (PDict pl)" and "pyget pl ''id'' = r"
proof (cases d)
  case None
  then show ?thesis using assms by simp
next
  case (Some dd)
  show ?thesis
  proof (cases dd)
    case (Malformed x)
    then show ?thesis using assms Some by simp
  next
    case (Parsed cd)
    show ?thesis
    proof (cases cd)
      case CtlOther
      then show ?thesis using assms Some Parsed by simp
    next
      case (CtlDict items)
      then show ?thesis using assms Some Parsed that
        by (auto split: option.splits payload.splits)
    qed
  qed
qed

lemma iter_carries:
  assumes "carries k r d" and "k \<in> set VALID_COMMANDS" and "py_truthy r"
  shows "dispatched k (watch_loop_iter ev (c, w\<lparr>control := d\<rparr>))
         = dispatched k (c, w) + (if is_duplicate c k r then 0 else 1)
       \<and> applied k (watch_loop_iter ev (c, w\<lparr>control := d\<rparr>))
         = applied k (c, w) + (if is_duplicate c k r then 0 else 1)
       \<and> is_duplicate (fst (watch_loop_iter ev (c, w\<lparr>control := d\<rparr>))) k r
       \<and> (\<not> is_duplicate c k r \<longrightarrow>
            pyget (last_request_ids (fst (watch_loop_iter ev (c, w\<lparr>control := d\<rparr>)))) k = r)"
proof -
  obtain items pl where d: "d = Some (Parsed (CtlDict items))"
    and dist: "distinct (map fst items)" and la: "list_all is_pdict (map snd items)"
    and m: "map_of items k = Some (PDict pl)" and r: "pyget pl ''id'' = r"
    using assms(1) by (rule carries_items)
  let ?w1 = "emit [OpenFile ControlFile ModeR, Acquire ControlFile, Log Debug ''Lock acquired'',
                 ReadDoc ControlFile, Release ControlFile, Log Debug ''Lock released'']
               (w\<lparr>control := d\<rparr>)"
  have C: "check_for_new_command ev (c, w\<lparr>control := d\<rparr>) = process_items ev items (c, ?w1)"
    by (rule check_eq) (simp add: d)
  have N: "fst (process_items ev items (c, ?w1)) = None"
    using la by (rule process_items_pdict)
  have S: "dispatched k (snd (process_items ev items (c, ?w1)))
         = dispatched k (c, ?w1) + (if is_duplicate (fst (c, ?w1)) k (pyget pl ''id'') then 0 else 1)
       \<and> applied k (snd (process_items ev items (c, ?w1)))
         = applied k (c, ?w1) + (if is_duplicate (fst (c, ?w1)) k (pyget pl ''id'') then 0 else 1)
       \<and> is_duplicate (fst (snd (process_items ev items (c, ?w1)))) k (pyget pl ''id'')
       \<and> (\<not> is_duplicate (fst (c, ?w1)) k (pyget pl ''id'') \<longrightarrow>
            pyget (last_request_ids (fst (snd (process_items ev items (c, ?w1))))) k = pyget pl ''id'')"
    using assms(2,3) r by (intro process_items_same[OF dist m _ _ la]) simp_all
  obtain c' w' where R: "process_items ev items (c, ?w1) = (None, c', w')"
    using N by (cases "process_items ev items (c, ?w1)") auto
  have I: "watch_loop_iter ev (c, w\<lparr>control := d\<rparr>) = (c', emit [Sleep 1] w')"
    by (simp add: watch_loop_iter_def C R)
  show ?thesis using S R r by (simp add: I)
qed

lemma watch_loop_dups:
  assumes "k \<in> set VALID_COMMANDS" and "py_truthy r"
  shows "is_duplicate (fst s) k r \<Longrightarrow> list_all (\<lambda>p. carries k r (snd p)) polls \<Longrightarrow>
         dispatched k (watch_loop polls s) = dispatched k s
       \<and> applied k (watch_loop polls s) = applied k s
       \<and> is_duplicate (fst (watch_loop polls s)) k r"
proof (induction polls arbitrary: s)
  case Nil
  then show ?case by simp
next
  case (Cons p polls)
  obtain ev d where p: "p = (ev, d)" by (cases p)
  obtain c w where s: "s = (c, w)" by (cases s)
  have car: "carries k r d" using Cons.prems(2) p by simp
  have it: "dispatched k (watch_loop_iter ev (c, w\<lparr>control := d\<rparr>)) = dispatched k (c, w)
       \<and> applied k (watch_loop_iter ev (c, w\<lparr>control := d\<rparr>)) = applied k (c, w)
       \<and> is_duplicate (fst (watch_loop_iter ev (c, w\<lparr>control := d\<rparr>))) k r"
    using iter_carries[OF car assms, of ev c w] Cons.prems(1) s by simp
  have rest: "list_all (\<lambda>p. carries k r (snd p)) polls" using Cons.prems(2) by simp
  show ?case
    using Cons.IH[of "watch_loop_iter ev (c, w\<lparr>control := d\<rparr>)"] it rest
    by (simp add: p s)
qed

text \<open>
  Claim C5. Let the control loop poll one or more times in a row, and let every poll find
  a control document (an object with object payloads) in which kind \<open>k\<close> carries the same
  request id \<open>r\<close>, fresh at the start. Then the first poll dispatches kind \<open>k\<close> once, enters
  the handler of \<open>k\<close> once and records \<open>r\<close> as its last id; and over all the polls kind \<open>k\<close>
  is dispatched exactly once and its handler is entered exactly once: every later
  observation of \<open>r\<close> is a duplicate and applies nothing.
\<close>

theorem same_request_applied_once:
  assumes "k \<in> set VALID_COMMANDS" and "py_truthy r" and "\<not> is_duplicate (fst s) k r"
    and "carries k r d" and "list_all (\<lambda>p. carries k r (snd p)) polls"
  shows "dispatched k (watch_loop [(ev, d)] s) = dispatched k s + 1
       \<and> applied k (watch_loop [(ev, d)] s) = applied k s + 1
       \<and> pyget (last_request_ids (fst (watch_loop [(ev, d)] s))) k = r
       \<and> dispatched k (watch_loop ((ev, d) # polls) s) = dispatched k s + 1
       \<and> applied k (watch_loop ((ev, d) # polls) s) = applied k s + 1
       \<and> is_duplicate (fst (watch_loop ((ev, d) # polls) s)) k r"
proof -
  obtain c w where s: "s = (c, w)" by (cases s)
  let ?s1 = "watch_loop_iter ev (c, w\<lparr>control := d\<rparr>)"
  have it: "dispatched k ?s1 = dispatched k (c, w) + 1
            \<and> applied k ?s1 = applied k (c, w) + 1
            \<and> is_duplicate (fst ?s1) k r
            \<and> pyget (last_request_ids (fst ?s1)) k = r"
    using iter_carries[OF assms(4,1,2), of ev c w] assms(3) s by simp
  have rest: "dispatched k (watch_loop polls ?s1) = dispatched k ?s1
       \<and> applied k (watch_loop polls ?s1) = applied k ?s1
       \<and> is_duplicate (fst (watch_loop polls ?s1)) k r"
    using watch_loop_dups[OF assms(1,2) _ assms(5), of ?s1] it by simp
  show ?thesis using it rest by (simp add: s)
qed

theorem same_request_applied_once_witness:
  "applied ''skip''
     (watch_loop
        [(\<lparr>playable = (\<lambda>e. True), now = 1700000000\<rparr>,
          Some (Parsed (CtlDict [(''skip'', PDict [(''id'', JStr ''req-1''), (''user'', JStr ''ann'')])]))),
         (\<lparr>playable = (\<lambda>e. True), now = 1700000001\<rparr>,
          Some (Parsed (CtlDict [(''skip'', PDict [(''id'', JStr ''req-1''), (''user'', JStr ''ann'')])]))),
         (\<lparr>playable = (\<lambda>e. True), now = 1700000002\<rparr>,
          Some (Parsed (CtlDict [(''skip'', PDict [(''id'', JStr ''req-1''), (''user'', JStr ''ann'')]),
                                 (''pause'', PDict [(''id'', JStr ''req-2'')])])))]
        (\<lparr>last_request_ids = [], paused = False, emitter = None\<rparr>,
         \<lparr>playlist = Some (Parsed []), now_playing = None, control = None, trace = []\<rparr>))
   = 1
   \<and> dispatched ''skip''
     (watch_loop
        [(\<lparr>playable = (\<lambda>e. True), now = 1700000000\<rparr>,
          Some (Parsed (CtlDict [(''skip'', PDict [(''id'', JStr ''req-1''), (''user'', JStr ''ann'')])]))),
         (\<lparr>playable = (\<lambda>e. True), now = 1700000001\<rparr>,
          Some (Parsed (CtlDict [(''skip'', PDict [(''id'', JStr ''req-1''), (''user'', JStr ''ann'')])]))),
         (\<lparr>playable = (\<lambda>e. True), now = 1700000002\<rparr>,
          Some (Parsed (CtlDict [(''skip'', PDict [(''id'', JStr ''req-1''), (''user'', JStr ''ann'')]),
                                 (''pause'', PDict [(''id'', JStr ''req-2'')])])))]
        (\<lparr>last_request_ids = [], paused = False, emitter = None\<rparr>,
         \<lparr>playlist = Some (Parsed []), now_playing = None, control = None, trace = []\<rparr>))
   = 1"
proof -
  let ?d = "Some (Parsed (CtlDict [(''skip'', PDict [(''id'', JStr ''req-1''), (''user'', JStr ''ann'')])]))"
  let ?d2 = "Some (Parsed (CtlDict [(''skip'', PDict [(''id'', JStr ''req-1''), (''user'', JStr ''ann'')]),
                                 (''pause'', PDict [(''id'', JStr ''req-2'')])]))"
  let ?polls = "[(\<lparr>playable = (\<lambda>e. True), now = 1700000001\<rparr>, ?d),
                 (\<lparr>playable = (\<lambda>e. True), now = 1700000002\<rparr>, ?d2)]"
  let ?s = "(\<lparr>last_request_ids = [], paused = False, emitter = None\<rparr>,
         \<lparr>playlist = Some (Parsed []), now_playing = None, control = None, trace = []\<rparr>)"
  have h1: "''skip'' \<in> set VALID_COMMANDS" by (simp add: VALID_COMMANDS_def)
  have h2: "py_truthy (JStr ''req-1'')" by simp
  have h3: "\<not> is_duplicate (fst ?s) ''skip'' (JStr ''req-1'')"
    by (simp add: is_duplicate_def pyget_def)
  have h4: "carries ''skip'' (JStr ''req-1'') ?d" by (simp add: pyget_def)
  have h5: "list_all (\<lambda>p. carries ''skip'' (JStr ''req-1'') (snd p)) ?polls" by (simp add: pyget_def)
  have z: "dispatched ''skip'' ?s = 0" "applied ''skip'' ?s = 0" by simp_all
  show ?thesis
    using same_request_applied_once [OF h1 h2 h3 h4 h5, of "\<lparr>playable = (\<lambda>e. True), now = 1700000000\<rparr>"] z
    by simp
qed


section \<open>The skip handler\<close>

lemma handle_skip_paused: "paused (fst (handle_skip ev u (c, w))) = False"
  by (auto simp: handle_skip_def stop_stream_eq get_next_item_eq run_once_def pop_front_eq
      split: option.splits list.splits)

lemma handle_skip_empty:
  assumes "stored w = []"
  shows "emitter (fst (handle_skip ev u (c, w))) = None"
    and "playlist (snd (handle_skip ev u (c, w))) = playlist w"
  using assms
  by (auto simp: handle_skip_def stop_stream_eq get_next_item_eq split: option.splits)

lemma handle_skip_front:
  assumes "stored w = e # rest" and "e \<noteq> []"
  shows "stored (snd (handle_skip ev u (c, w))) = rest"
    and "emitter (fst (handle_skip ev u (c, w))) = (if playable ev e then Some e else None)"
  using assms
  by (auto simp: handle_skip_def stop_stream_eq get_next_item_eq run_once_def pop_front_eq
      split: option.splits)


text \<open>
  Claim C2. Whenever the loop of the control manager comes to a skip command with a fresh
  request id, whatever else the control document carries, the command is dispatched once
  without an exception and the paused flag is cleared. With an empty queue no emitter runs
  afterwards and the queue document is as before. With a non-empty queue whose front entry
  is a non-empty record, the front entry has been popped (the store holds the rest) and the
  only emitter that runs afterwards is the one begun for that entry, whatever was streaming
  before; with distinct entries the begun entry is no longer in the store. The pop is the
  one of \<^verbatim>\<open>run_once\<close>, which is modelled from the specification; \<^verbatim>\<open>get_next_item\<close> in the
  handler itself only reads the front entry.
\<close>

theorem skip_pops_and_begins:
  assumes "py_truthy (pyget pl ''id'')"
    and "\<not> is_duplicate c ''skip'' (pyget pl ''id'')"
  shows "fst (process_item ev (''skip'', PDict pl) (c, w)) = None
       \<and> dispatched ''skip'' (snd (process_item ev (''skip'', PDict pl) (c, w)))
           = dispatched ''skip'' (c, w) + 1
       \<and> paused (fst (snd (process_item ev (''skip'', PDict pl) (c, w)))) = False
       \<and> (stored w = [] \<longrightarrow>
            emitter (fst (snd (process_item ev (''skip'', PDict pl) (c, w)))) = None
            \<and> playlist (snd (snd (process_item ev (''skip'', PDict pl) (c, w)))) = playlist w)
       \<and> (\<forall>e rest. stored w = e # rest \<and> e \<noteq> [] \<longrightarrow>
            stored (snd (snd (process_item ev (''skip'', PDict pl) (c, w)))) = rest
            \<and> emitter (fst (snd (process_item ev (''skip'', PDict pl) (c, w))))
                = (if playable ev e then Some e else None)
            \<and> (distinct (stored w) \<longrightarrow>
                 e \<notin> set (stored (snd (snd (process_item ev (''skip'', PDict pl) (c, w)))))))"
proof -
  let ?u = "pyget_default pl ''user'' (JStr ''Unknown'')"
  let ?c1 = "c\<lparr>last_request_ids := AList.update ''skip'' (pyget pl ''id'') (last_request_ids c)\<rparr>"
  let ?w2 = "emit [Received ''skip'' ?u] w"
  have C: "process_item ev (''skip'', PDict pl) (c, w) = (None, handle_skip ev ?u (?c1, ?w2))"
    using assms
    by (simp add: process_item_def Let_def VALID_COMMANDS_def apply_command_def)
  have st: "stored ?w2 = stored w" by simp
  have pl: "playlist ?w2 = playlist w" by simp
  have d: "dispatched ''skip'' (handle_skip ev ?u (?c1, ?w2)) = dispatched ''skip'' (c, w) + 1"
    by (simp add: handle_skip_facts)
  show ?thesis
    using handle_skip_paused[of ev ?u ?c1 ?w2] handle_skip_empty[of ?w2 ev ?u ?c1]
      handle_skip_front[of ?w2 _ _ ev ?u ?c1] st pl d
    by (auto simp: C)
qed

theorem skip_pops_and_begins_witness:
  "stored (snd (snd (process_item \<lparr>playable = (\<lambda>e. True), now = 1700000000\<rparr>
      (''skip'', PDict [(''id'', JStr ''req-1'')])
      (\<lparr>last_request_ids = [], paused = True, emitter = Some [(''id'', JStr ''z'')]\<rparr>,
       \<lparr>playlist = Some (Parsed [[(''id'', JStr ''a'')], [(''id'', JStr ''b'')]]),
        now_playing = None, control = None, trace = []\<rparr>)))) = [[(''id'', JStr ''b'')]]
   \<and> emitter (fst (snd (process_item \<lparr>playable = (\<lambda>e. True), now = 1700000000\<rparr>
      (''skip'', PDict [(''id'', JStr ''req-1'')])
      (\<lparr>last_request_ids = [], paused = True, emitter = Some [(''id'', JStr ''z'')]\<rparr>,
       \<lparr>playlist = Some (Parsed [[(''id'', JStr ''a'')], [(''id'', JStr ''b'')]]),
        now_playing = None, control = None, trace = []\<rparr>)))) = Some [(''id'', JStr ''a'')]
   \<and> paused (fst (snd (process_item \<lparr>playable = (\<lambda>e. True), now = 1700000000\<rparr>
      (''skip'', PDict [(''id'', JStr ''req-1'')])
      (\<lparr>last_request_ids = [], paused = True, emitter = Some [(''id'', JStr ''z'')]\<rparr>,
       \<lparr>playlist = Some (Parsed [[(''id'', JStr ''a'')], [(''id'', JStr ''b'')]]),
        now_playing = None, control = None, trace = []\<rparr>)))) = False"
proof -
  let ?ev = "\<lparr>playable = (\<lambda>e. True), now = 1700000000\<rparr>"
  let ?c = "\<lparr>last_request_ids = [], paused = True, emitter = Some [(''id'', JStr ''z'')]\<rparr>"
  let ?w = "\<lparr>playlist = Some (Parsed [[(''id'', JStr ''a'')], [(''id'', JStr ''b'')]]),
        now_playing = None, control = None, trace = []\<rparr>"
  let ?pl = "[(''id'', JStr ''req-1'')]"
  have h2: "py_truthy (pyget ?pl ''id'')" by (simp add: pyget_def)
  have h3: "\<not> is_duplicate ?c ''skip'' (pyget ?pl ''id'')"
    by (simp add: is_duplicate_def pyget_def)
  have st: "stored ?w = [(''id'', JStr ''a'')] # [[(''id'', JStr ''b'')]] \<and> [(''id'', JStr ''a'')] \<noteq> []"
    by (simp add: stored_def)
  from skip_pops_and_begins [OF h2 h3, of ?ev ?w]
  have "\<forall>e rest. stored ?w = e # rest \<and> e \<noteq> [] \<longrightarrow>
            stored (snd (snd (process_item ?ev (''skip'', PDict ?pl) (?c, ?w)))) = rest
            \<and> emitter (fst (snd (process_item ?ev (''skip'', PDict ?pl) (?c, ?w))))
                = (if playable ?ev e then Some e else None)"
    and "paused (fst (snd (process_item ?ev (''skip'', PDict ?pl) (?c, ?w)))) = False"
    by blast+
  with st show ?thesis by simp
qed


section \<open>The supervisor: bounded restarts\<close>

lemma count_spawned_simps [simp]:
  "count_spawned n [] = 0"
  "count_spawned n (a @ b) = count_spawned n a + count_spawned n b"
  "count_spawned n (Spawned m # es) = (if m = n then 1 else 0) + count_spawned n es"
  "count_spawned n (Slept k # es) = count_spawned n es"
  "count_spawned n (Note l m x # es) = count_spawned n es"
  by (auto simp: count_spawned_def)

lemma spawns_follow_append:
  "spawns_follow p (a @ b) =
     (spawns_follow p a \<and> spawns_follow (if a = [] then p else Some (last a)) b)"
  by (induction a arbitrary: p) auto

lemma steps_to_refl: "steps_to name s s"
  by (simp add: steps_to_def)

lemma steps_to_trans:
  assumes "steps_to name s s1" and "steps_to name s1 s2"
  shows "steps_to name s s2"
proof -
  obtain e1 where 1: "strace s1 = strace s @ e1" "\<forall>p. spawns_follow p e1"
    "attempts_of name s + count_spawned name e1 \<le> attempts_of name s1"
    "attempts_of name s1 \<le> max (attempts_of name s) MAX_RESTART_ATTEMPTS"
    using assms(1) by (auto simp: steps_to_def)
  obtain e2 where 2: "strace s2 = strace s1 @ e2" "\<forall>p. spawns_follow p e2"
    "attempts_of name s1 + count_spawned name e2 \<le> attempts_of name s2"
    "attempts_of name s2 \<le> max (attempts_of name s1) MAX_RESTART_ATTEMPTS"
    using assms(2) by (auto simp: steps_to_def)
  have "strace s2 = strace s @ (e1 @ e2)" using 1(1) 2(1) by simp
  moreover have "\<forall>p. spawns_follow p (e1 @ e2)" using 1(2) 2(2) by (simp add: spawns_follow_append)
  moreover have "attempts_of name s + count_spawned name (e1 @ e2) \<le> attempts_of name s2"
    using 1(3) 2(3) by simp
  moreover have "attempts_of name s2 \<le> max (attempts_of name s) MAX_RESTART_ATTEMPTS"
    using 1(4) 2(4) by simp
  ultimately show ?thesis unfolding steps_to_def by blast
qed

lemma attempts_update_other:
  "m \<noteq> name \<Longrightarrow>
   attempts_of name (s\<lparr>restart_counters := AList.update m v (restart_counters s)\<rparr>) = attempts_of name s"
  by (simp add: attempts_of_def update_conv')

lemma attempts_slog [simp]: "attempts_of name (slog es s) = attempts_of name s"
  by (simp add: attempts_of_def slog_def)

lemma strace_slog [simp]: "strace (slog es s) = strace s @ es"
  by (simp add: slog_def)

lemma start_thread_steps:
  assumes "map_of (threads s) m = Some False"
  shows "strace (start_thread m target s) = strace s @ [Spawned m, Note Info ''Started thread'' m]"
    and "attempts_of name (start_thread m target s) = attempts_of name s"
  using assms
  by (auto simp: start_thread_def slog_def attempts_of_def update_conv' split: option.splits)

lemma monitor_body_steps: "steps_to name s (snd (monitor_body m s))"
proof (cases "map_of (threads s) m = Some False")
  case False
  then show ?thesis by (simp add: monitor_body_def steps_to_refl)
next
  case dead: True
  show ?thesis
  proof (cases "attempts_of m s \<ge> MAX_RESTART_ATTEMPTS")
    case True
    then have "snd (monitor_body m s) =
        slog [Note Warning ''no longer alive'' m, Note Critical ''Max restart attempts reached'' m] s"
      using dead by (simp add: monitor_body_def Let_def attempts_of_def slog_def)
    then show ?thesis by (simp add: steps_to_def)
  next
    case False
    show ?thesis
    proof (cases "map_of (restart_counters s) m")
      case None
      then have "snd (monitor_body m s) =
        slog [Note Warning ''no longer alive'' m, Note Info ''Attempting to restart'' m,
              Slept RESTART_BACKOFF] s"
        using dead False
        by (simp add: monitor_body_def Let_def attempts_of_def slog_def MAX_RESTART_ATTEMPTS_def)
      then show ?thesis by (simp add: steps_to_def)
    next
      case (Some n)
      let ?s3 = "(slog [Note Warning ''no longer alive'' m, Note Info ''Attempting to restart'' m,
              Slept RESTART_BACKOFF] s)\<lparr>restart_counters := AList.update m (n + 1) (restart_counters s)\<rparr>"
      have n: "n < MAX_RESTART_ATTEMPTS" using False Some by (simp add: attempts_of_def)
      have A: "attempts_of name ?s3 = (if m = name then n + 1 else attempts_of name s)"
        by (simp add: attempts_of_def slog_def update_conv')
      have A0: "m = name \<Longrightarrow> attempts_of name s = n" using Some by (simp add: attempts_of_def)
      have T: "strace ?s3 = strace s @ [Note Warning ''no longer alive'' m,
              Note Info ''Attempting to restart'' m, Slept RESTART_BACKOFF]"
        by (simp add: slog_def)
      have D: "map_of (threads ?s3) m = Some False" using dead by (simp add: slog_def)
      show ?thesis
      proof (cases "map_of (thread_targets s) m")
        case None
        then have "snd (monitor_body m s) = slog [Note Error ''Failed to restart'' m] ?s3"
          using dead False Some
          by (simp add: monitor_body_def Let_def attempts_of_def slog_def)
        then show ?thesis using A A0 n T by (auto simp: steps_to_def)
      next
        case (Some target)
        then have B: "snd (monitor_body m s) = start_thread m target ?s3"
          using dead False \<open>map_of (restart_counters s) m = Some n\<close>
          by (simp add: monitor_body_def Let_def attempts_of_def slog_def)
        have "strace (start_thread m target ?s3)
              = strace s @ [Note Warning ''no longer alive'' m, Note Info ''Attempting to restart'' m,
                  Slept RESTART_BACKOFF, Spawned m, Note Info ''Started thread'' m]"
          using start_thread_steps(1)[OF D] T by simp
        moreover have "attempts_of name (start_thread m target ?s3)
              = (if m = name then n + 1 else attempts_of name s)"
          using start_thread_steps(2)[OF D] A by simp
        ultimately show ?thesis using A0 n unfolding B steps_to_def
          by (intro exI[of _ "[Note Warning ''no longer alive'' m, Note Info ''Attempting to restart'' m,
                  Slept RESTART_BACKOFF, Spawned m, Note Info ''Started thread'' m]"]) auto
      qed
    qed
  qed
qed

lemma monitor_names_steps: "steps_to name s (snd (monitor_names names s))"
proof (induction names arbitrary: s)
  case Nil
  then show ?case by (simp add: steps_to_refl)
next
  case (Cons m names)
  obtain r s1 where B: "monitor_body m s = (r, s1)" by (cases "monitor_body m s")
  have 1: "steps_to name s s1" using monitor_body_steps[of name s m] B by simp
  show ?case
  proof (cases r)
    case None
    then show ?thesis using steps_to_trans[OF 1 Cons.IH[of s1]] B by simp
  next
    case (Some x)
    then show ?thesis using 1 B by simp
  qed
qed

lemma monitor_pass_steps: "steps_to name s (snd (monitor_pass s))"
proof -
  obtain r s1 where B: "monitor_names (map fst (threads s)) s = (r, s1)"
    by (cases "monitor_names (map fst (threads s)) s")
  have 1: "steps_to name s s1" using monitor_names_steps[of name s "map fst (threads s)"] B by simp
  have 2: "steps_to name s1 (slog [Slept 3] s1)" by (simp add: steps_to_def)
  show ?thesis using 1 steps_to_trans[OF 1 2] B by (cases r) (simp_all add: monitor_pass_def)
qed

lemma die_steps:
  "steps_to name s (if map_of (threads s) m = None then s
                     else s\<lparr>threads := AList.update m False (threads s)\<rparr>)"
  by (simp add: steps_to_def attempts_of_def)

lemma run_monitor_steps: "steps_to name s (snd (run_monitor acts s))"
proof (induction acts arbitrary: s)
  case Nil
  then show ?case by (simp add: steps_to_refl)
next
  case (Cons a acts)
  show ?case
  proof (cases a)
    case (Die m)
    show ?thesis
      using steps_to_trans[OF die_steps[of name s m] Cons.IH] Die by simp
  next
    case MonitorPass
    obtain r s1 where B: "monitor_pass s = (r, s1)" by (cases "monitor_pass s")
    have 1: "steps_to name s s1" using monitor_pass_steps[of name s] B by simp
    show ?thesis
    proof (cases "running s")
      case False
      then show ?thesis using MonitorPass by (simp add: steps_to_refl)
    next
      case True
      then show ?thesis
        using 1 steps_to_trans[OF 1 Cons.IH[of s1]] B MonitorPass by (cases r) simp_all
    qed
  qed
qed


lemma new_sevents_append [simp]: "strace s' = strace s @ es \<Longrightarrow> new_sevents s s' = es"
  by (simp add: new_sevents_def)

lemma monitor_body_exhausted:
  assumes "map_of (threads s) name = Some False" and "MAX_RESTART_ATTEMPTS \<le> attempts_of name s"
  shows "monitor_body name s =
           (None, slog [Note Warning ''no longer alive'' name,
                        Note Critical ''Max restart attempts reached'' name] s)"
  using assms by (simp add: monitor_body_def Let_def attempts_of_def slog_def)


text \<open>
  Claim C9. Take any worker name and any run of the monitor in which workers die at any
  moment. The number of thread starts of the worker during the run is at most
  \<open>MAX_RESTART_ATTEMPTS\<close> minus its restart counter at the start (so at most
  \<open>MAX_RESTART_ATTEMPTS\<close> in total for a counter that starts at zero); the counter has grown
  by at least that number; every thread start of the run comes directly after the back-off
  sleep of \<open>RESTART_BACKOFF\<close> seconds. Once the counter has reached the ceiling, the run
  starts the worker no more, and a visit of the monitor that finds it dead only logs the
  critical fault for it.
\<close>

theorem monitor_restart_bound:
  "count_spawned name (new_sevents s (snd (run_monitor acts s)))
     \<le> MAX_RESTART_ATTEMPTS - attempts_of name s
   \<and> attempts_of name s + count_spawned name (new_sevents s (snd (run_monitor acts s)))
     \<le> attempts_of name (snd (run_monitor acts s))
   \<and> spawn_after_backoff (new_sevents s (snd (run_monitor acts s)))
   \<and> (MAX_RESTART_ATTEMPTS \<le> attempts_of name s \<longrightarrow>
        count_spawned name (new_sevents s (snd (run_monitor acts s))) = 0
        \<and> (map_of (threads s) name = Some False \<longrightarrow>
             monitor_body name s =
               (None, slog [Note Warning ''no longer alive'' name,
                            Note Critical ''Max restart attempts reached'' name] s)))"
proof -
  let ?s' = "snd (run_monitor acts s)"
  obtain es where e: "strace ?s' = strace s @ es" "\<forall>p. spawns_follow p es"
    "attempts_of name s + count_spawned name es \<le> attempts_of name ?s'"
    "attempts_of name ?s' \<le> max (attempts_of name s) MAX_RESTART_ATTEMPTS"
    using run_monitor_steps[of name s acts] by (auto simp: steps_to_def)
  have n: "new_sevents s ?s' = es" using e(1) by simp
  have 1: "count_spawned name es \<le> MAX_RESTART_ATTEMPTS - attempts_of name s"
    using e(3,4) by (simp add: max_def split: if_splits)
  have 3: "spawn_after_backoff es" using e(2) by (simp add: spawn_after_backoff_def)
  have 4: "MAX_RESTART_ATTEMPTS \<le> attempts_of name s \<Longrightarrow> count_spawned name es = 0"
    using 1 by simp
  show ?thesis using 1 3 4 e(3) monitor_body_exhausted[of s name] by (simp add: n)
qed


theorem monitor_restart_bound_witness:
  "count_spawned ''Player''
     (new_sevents
        (start_thread ''Player'' ''player.run''
           \<lparr>threads = [], thread_targets = [], restart_counters = [], running = True, strace = []\<rparr>)
        (snd (run_monitor
                [Die ''Player'', MonitorPass, Die ''Player'', MonitorPass, Die ''Player'', MonitorPass,
                 Die ''Player'', MonitorPass, Die ''Player'', MonitorPass, Die ''Player'', MonitorPass,
                 Die ''Player'', MonitorPass]
                (start_thread ''Player'' ''player.run''
                   \<lparr>threads = [], thread_targets = [], restart_counters = [], running = True,
                    strace = []\<rparr>)))) = 5
   \<and> spawn_after_backoff
     (new_sevents
        (start_thread ''Player'' ''player.run''
           \<lparr>threads = [], thread_targets = [], restart_counters = [], running = True, strace = []\<rparr>)
        (snd (run_monitor
                [Die ''Player'', MonitorPass, Die ''Player'', MonitorPass, Die ''Player'', MonitorPass,
                 Die ''Player'', MonitorPass, Die ''Player'', MonitorPass, Die ''Player'', MonitorPass,
                 Die ''Player'', MonitorPass]
                (start_thread ''Player'' ''player.run''
                   \<lparr>threads = [], thread_targets = [], restart_counters = [], running = True,
                    strace = []\<rparr>))))"
proof -
  let ?s = "start_thread ''Player'' ''player.run''
           \<lparr>threads = [], thread_targets = [], restart_counters = [], running = True, strace = []\<rparr>"
  let ?acts = "[Die ''Player'', MonitorPass, Die ''Player'', MonitorPass, Die ''Player'', MonitorPass,
                 Die ''Player'', MonitorPass, Die ''Player'', MonitorPass, Die ''Player'', MonitorPass,
                 Die ''Player'', MonitorPass]"
  have five: "count_spawned ''Player'' (new_sevents ?s (snd (run_monitor ?acts ?s))) = 5"
    by code_simp
  show ?thesis
    using five monitor_restart_bound [of "''Player''" ?s ?acts] by simp
qed

end
